theory Spec2Isabelle
  imports Complex_Main
begin

section \<open>The block menu of core/block\_menu.js\<close>

text \<open>
  The block menu is a panel that shows prototype blocks and lets the user copy one onto
  the main workspace. The JavaScript mutates the menu object, the blocks, the DOM and a few
  static fields of \<^verbatim>\<open>Blockly.BlockMenu\<close>; here all of that is one record that every
  operation takes and returns. Private names of the source end in an underscore, which
  is not a legal end of a name here, so \<^verbatim>\<open>buttons_\<close> is \<open>buttons\<close>,
  \<^verbatim>\<open>createBlockFunc_\<close> is \<open>createBlockFunc\<close>, and so on.
  Numbers are JavaScript numbers, taken as reals. Where the code computes with a property
  that may be undefined the result may be \<^verbatim>\<open>NaN\<close>, and the number is a \<open>num\<close>.
\<close>

subsection \<open>Numbers\<close>

text \<open>
  A number that may be \<^verbatim>\<open>NaN\<close>. The arithmetic is JavaScript's: a sum, difference or
  quotient with a \<^verbatim>\<open>NaN\<close> operand is \<^verbatim>\<open>NaN\<close>. \<open>toNumber\<close> is the conversion of a
  property that is a number or undefined, and undefined converts to \<^verbatim>\<open>NaN\<close>.
  \<open>ndiv\<close> is used with the divisor 2 only. \<open>looseNotEqual\<close> is \<^verbatim>\<open>a != b\<close> for a
  property \<open>a\<close> that is a number or undefined and a number \<open>b\<close>: it is false only for
  two equal numbers, neither of them \<^verbatim>\<open>NaN\<close>.
\<close>

datatype num = Num real | NaN

fun nadd :: "num \<Rightarrow> num \<Rightarrow> num" where
  "nadd (Num a) (Num b) = Num (a + b)"
| "nadd NaN y = NaN"
| "nadd (Num a) NaN = NaN"

fun nsub :: "num \<Rightarrow> num \<Rightarrow> num" where
  "nsub (Num a) (Num b) = Num (a - b)"
| "nsub NaN y = NaN"
| "nsub (Num a) NaN = NaN"

fun ndiv :: "num \<Rightarrow> num \<Rightarrow> num" where
  "ndiv (Num a) (Num b) = Num (a / b)"
| "ndiv NaN y = NaN"
| "ndiv (Num a) NaN = NaN"

fun toNumber :: "real option \<Rightarrow> num" where
  "toNumber None = NaN"
| "toNumber (Some a) = Num a"

fun looseNotEqual :: "num option \<Rightarrow> num \<Rightarrow> bool" where
  "looseNotEqual (Some (Num a)) (Num b) = (a \<noteq> b)"
| "looseNotEqual None y = True"
| "looseNotEqual (Some NaN) y = True"
| "looseNotEqual (Some (Num a)) NaN = True"

subsection \<open>Data\<close>

type_synonym elem = nat

datatype wsname = MenuWorkspace | MainWorkspace

record event =
  etype :: string
  clientX :: real
  clientY :: real
  button :: int

text \<open>
  A block template, as the XML of a toolbox carries it: the tag name of the node, the
  \<^verbatim>\<open>type\<close> attribute, and what the block type's definition fixes for every instance
  (its connections, its rendered size, whether it is disabled or addable, its comment).
  A text node has no tag name.
\<close>

record xml =
  tagName :: "string option"
  typeAttr :: string
  hasOutput :: bool
  hasPrevious :: bool
  hasNext :: bool
  boxHeight :: real
  boxWidth :: real
  isDisabled :: bool
  addable :: bool
  commentAttr :: "string option"

record block =
  bid :: nat
  dom :: xml
  workspace :: wsname
  svgRoot :: "elem option"
  posX :: num
  posY :: num
  blockMenuRect :: "elem option"
  isInFlyout :: bool
  isInBlockMenu :: bool
  commentText :: "string option"
  stalkerBlock :: "nat option"
  startDragX :: "num option"
  startDragY :: "num option"

record heightWidth =
  hw_height :: real
  hw_width :: real

datatype target = Window | Document | Canvas | Node elem

datatype handler =
    SyncViewSize | Reflow | BlockMouseDown nat | CreateBlock nat
  | EntryCreateVariable | EntryCreateMessage | EntryDeleteMessage
  | EntryRemoveVariable | EntryChangeVariableName
  | TerminateDrag | OnMouseMove

text \<open>
  What \<^verbatim>\<open>Blockly.bindEvent_\<close> returns and \<^verbatim>\<open>Blockly.unbindEvent_\<close> takes. Each call
  wraps the function in a new closure, so every binding is its own object: \<open>handle\<close>.
\<close>

record binding =
  handle :: nat
  target :: target
  evname :: string
  func :: handler

record rectnode =
  rid :: elem
  attrWidth :: num
  attrHeight :: num
  attrX :: num
  attrY :: num

datatype menuref = ThisBlockMenu

record state =
  buttons :: "elem option list"
  listeners :: "binding list"
  reflowWrapper :: "binding option"
  width :: "num option"
  CORNER_RADIUS :: "real option"
  display :: string
  scrollY :: real
  canvasTransform :: "real option"
  rects :: "rectnode list"
  blocks :: "block list"
  bound :: "binding list"
  nextId :: nat
  startDownEvent :: "event option"
  startBlock :: "block option"
  startblockMenu :: "menuref option"
  startFlyout :: "menuref option"
  onMouseUpWrapper :: "binding option"
  onMouseMoveWrapper :: "binding option"
  cursorHand :: bool
  entryEvents :: "string list"
  mouseDowns :: "(nat \<times> event) list"
  contextMenus :: "nat list"
  resizeEvents :: nat
  changeEvents :: nat

text \<open>
  The fields of \<open>state\<close>: \<open>buttons\<close> to \<open>scrollY\<close> are the menu's own
  (\<open>width\<close> is undefined until the first \<^verbatim>\<open>show\<close>, \<open>buttons\<close> is a JavaScript
  array and may have holes; \<open>CORNER_RADIUS\<close> is the property \<^verbatim>\<open>this.CORNER_RADIUS\<close>
  that \<^verbatim>\<open>reflow\<close> reads: \<open>None\<close> is undefined, which is what the constructor leaves,
  since neither it nor the prototype defines the property and nothing in block\_menu.js
  assigns it); \<open>canvasTransform\<close> is the translation of the menu
  workspace's canvas and \<open>rects\<close> the hit-region rectangles attached under it;
  \<open>blocks\<close> are the live top blocks of both workspaces, in creation order; \<open>bound\<close>
  is every event listener currently attached in the page; \<open>startDownEvent\<close> to
  \<open>onMouseMoveWrapper\<close> are the static fields of \<^verbatim>\<open>Blockly.BlockMenu\<close>; the rest
  records calls into the toolkit (\<^verbatim>\<open>Entry.dispatchEvent\<close>, \<^verbatim>\<open>block.onMouseDown_\<close>,
  \<^verbatim>\<open>block.showContextMenu_\<close>, \<^verbatim>\<open>Blockly.fireUiEvent(window, 'resize')\<close>,
  \<^verbatim>\<open>workspace.fireChangeEvent\<close>). \<open>startBlock\<close> is the block object that
  pointer-down recorded.
\<close>

text \<open>
  What block\_menu.js reads from the toolkit and the page and does not define itself.
  \<open>rendered ws\<close> says whether a block created in workspace \<open>ws\<close> gets an SVG root;
  \<open>mainOrigin\<close> is the origin of the main workspace's canvas in SVG coordinates;
  \<open>viewRect\<close> is \<^verbatim>\<open>view_.getBoundingClientRect()\<close> (height, width); \<open>canvasBBox\<close> is
  \<^verbatim>\<open>getCanvas().getBBox()\<close> (height, y), \<open>None\<close> when the browser throws;
  \<open>variablesCategory\<close> and \<open>proceduresCategory\<close> are the templates and gaps that
  \<^verbatim>\<open>blockMenuCategory\<close> of the two special categories produces.
\<close>

record env =
  isRightButton :: "event \<Rightarrow> bool"
  DRAG_RADIUS :: real
  TAB_WIDTH :: real
  scrollbarThickness :: real
  RTL :: bool
  EntryIsObject :: bool
  CommentDefined :: bool
  ContextMenuDefined :: bool
  rendered :: "wsname \<Rightarrow> bool"
  mainOrigin :: "real \<times> real"
  viewRect :: "real \<times> real"
  canvasBBox :: "(real \<times> real) option"
  variablesCategory :: "(xml \<times> real) list"
  proceduresCategory :: "(xml \<times> real) list"

datatype fault = Thrown string | TypeError

text \<open>
  A call returns, or throws and leaves the state as it was at the \<^verbatim>\<open>throw\<close>.
\<close>

datatype 'a outcome = Returns 'a | Throws fault state

fun stateOf :: "state outcome \<Rightarrow> state" where
  "stateOf (Returns s) = s"
| "stateOf (Throws f s) = s"

fun returned :: "'a outcome \<Rightarrow> bool" where
  "returned (Returns x) = True"
| "returned (Throws f s) = False"

datatype xmlList = VariablesNameType | ProceduresNameType | XmlNodes "xml list"

record metrics =
  viewHeight :: real
  viewWidth :: real
  contentHeight :: real
  viewTop :: real
  contentTop :: real
  absoluteTop :: real
  absoluteLeft :: real

subsection \<open>The toolkit's primitives\<close>

definition outputConnection :: "block \<Rightarrow> bool" where
  "outputConnection b = hasOutput (dom b)"

definition previousConnection :: "block \<Rightarrow> bool" where
  "previousConnection b = hasPrevious (dom b)"

definition nextConnection :: "block \<Rightarrow> bool" where
  "nextConnection b = hasNext (dom b)"

definition disabled :: "block \<Rightarrow> bool" where
  "disabled b = isDisabled (dom b)"

definition isAddable :: "block \<Rightarrow> bool" where
  "isAddable b = addable (dom b)"

definition btype :: "block \<Rightarrow> string" where
  "btype b = typeAttr (dom b)"

definition getHeightWidth :: "block \<Rightarrow> heightWidth" where
  "getHeightWidth b = \<lparr>hw_height = boxHeight (dom b), hw_width = boxWidth (dom b)\<rparr>"

definition blockToDom :: "block \<Rightarrow> xml" where
  "blockToDom b = dom b"

definition getTopBlocks :: "wsname \<Rightarrow> state \<Rightarrow> block list" where
  "getTopBlocks ws st = filter (\<lambda>b. workspace b = ws) (blocks st)"

definition getBlock :: "nat \<Rightarrow> state \<Rightarrow> block option" where
  "getBlock i st = find (\<lambda>b. bid b = i) (blocks st)"

definition updBlock :: "nat \<Rightarrow> (block \<Rightarrow> block) \<Rightarrow> state \<Rightarrow> state" where
  "updBlock i f st = st\<lparr>blocks := map (\<lambda>b. if bid b = i then f b else b) (blocks st)\<rparr>"

definition moveBy :: "num \<Rightarrow> num \<Rightarrow> block \<Rightarrow> block" where
  "moveBy dx dy b = b\<lparr>posX := nadd (posX b) dx, posY := nadd (posY b) dy\<rparr>"

definition dispose :: "block \<Rightarrow> state \<Rightarrow> state" where
  "dispose b st = st\<lparr>blocks := filter (\<lambda>c. bid c \<noteq> bid b) (blocks st)\<rparr>"

definition bindEvent :: "target \<Rightarrow> string \<Rightarrow> handler \<Rightarrow> state \<Rightarrow> binding \<times> state" where
  "bindEvent t n f st =
     (let b = \<lparr>handle = nextId st, target = t, evname = n, func = f\<rparr>
      in (b, st\<lparr>bound := bound st @ [b], nextId := Suc (nextId st)\<rparr>))"

definition unbindEvent :: "binding \<Rightarrow> state \<Rightarrow> state" where
  "unbindEvent b st = st\<lparr>bound := filter (\<lambda>x. handle x \<noteq> handle b) (bound st)\<rparr>"

text \<open>Binding on the SVG root of a block: on a null element the call faults.\<close>

definition bindRoot :: "elem option \<Rightarrow> handler \<Rightarrow> state \<Rightarrow> (binding \<times> state) outcome" where
  "bindRoot r0 f st =
     (case r0 of
        None \<Rightarrow> Throws TypeError st
      | Some r \<Rightarrow> Returns (bindEvent (Node r) ''mousedown'' f st))"

definition createSvgRect :: "state \<Rightarrow> elem \<times> state" where
  "createSvgRect st = (nextId st, st\<lparr>nextId := Suc (nextId st)\<rparr>)"

definition insertRect :: "elem \<Rightarrow> state \<Rightarrow> state" where
  "insertRect r st =
     st\<lparr>rects := rects st @ [\<lparr>rid = r, attrWidth = Num 0, attrHeight = Num 0, attrX = Num 0,
                             attrY = Num 0\<rparr>]\<rparr>"

definition removeNode :: "elem \<Rightarrow> state \<Rightarrow> state" where
  "removeNode r st = st\<lparr>rects := filter (\<lambda>n. rid n \<noteq> r) (rects st)\<rparr>"

definition updRect :: "elem \<Rightarrow> (rectnode \<Rightarrow> rectnode) \<Rightarrow> state \<Rightarrow> state" where
  "updRect r f st = st\<lparr>rects := map (\<lambda>n. if rid n = r then f n else n) (rects st)\<rparr>"

text \<open>
  \<^verbatim>\<open>Blockly.Xml.domToBlock(workspace, xml)\<close>: a new top block of the workspace at the
  origin, with an SVG root when the workspace renders its blocks.
\<close>

definition domToBlock :: "env \<Rightarrow> wsname \<Rightarrow> xml \<Rightarrow> state \<Rightarrow> block \<times> state" where
  "domToBlock env ws x st =
     (let b = \<lparr>bid = nextId st, dom = x, workspace = ws,
               svgRoot = (if rendered env ws then Some (Suc (nextId st)) else None),
               posX = Num 0, posY = Num 0, blockMenuRect = None,
               isInFlyout = False, isInBlockMenu = False,
               commentText = commentAttr x, stalkerBlock = None,
               startDragX = None, startDragY = None\<rparr>
      in (b, st\<lparr>blocks := blocks st @ [b], nextId := Suc (Suc (nextId st))\<rparr>))"

text \<open>
  \<^verbatim>\<open>Blockly.getSvgXY_\<close> of a block's root: the block's position in its workspace, moved by
  the translation of that workspace's canvas.
\<close>

definition canvasOrigin :: "env \<Rightarrow> state \<Rightarrow> wsname \<Rightarrow> real \<times> real" where
  "canvasOrigin env st ws =
     (case ws of
        MenuWorkspace \<Rightarrow> (0, (case canvasTransform st of None \<Rightarrow> 0 | Some t \<Rightarrow> t))
      | MainWorkspace \<Rightarrow> mainOrigin env)"

definition getSvgXY :: "env \<Rightarrow> state \<Rightarrow> block \<Rightarrow> num \<times> num" where
  "getSvgXY env st b =
     (nadd (posX b) (Num (fst (canvasOrigin env st (workspace b)))),
      nadd (posY b) (Num (snd (canvasOrigin env st (workspace b)))))"

text \<open>A loop \<^verbatim>\<open>for (x = 0; v = a[x]; x++)\<close> visits the entries before the first hole.\<close>

fun truthyPrefix :: "'a option list \<Rightarrow> 'a list" where
  "truthyPrefix [] = []"
| "truthyPrefix (None # xs) = []"
| "truthyPrefix (Some x # xs) = x # truthyPrefix xs"

text \<open>\<^verbatim>\<open>a[i] = v\<close> on a JavaScript array: beyond the end the array grows, with holes.\<close>

definition arrayAssign :: "'a option list \<Rightarrow> nat \<Rightarrow> 'a \<Rightarrow> 'a option list" where
  "arrayAssign a i v =
     (if i < length a then a[i := Some v]
      else a @ replicate (i - length a) None @ [Some v])"

definition upperChar :: "char \<Rightarrow> char" where
  "upperChar c =
     (case map_of (zip ''abcdefghijklmnopqrstuvwxyz'' ''ABCDEFGHIJKLMNOPQRSTUVWXYZ'') c of
        Some u \<Rightarrow> u
      | None \<Rightarrow> c)"

definition toUpperCase :: "string \<Rightarrow> string" where
  "toUpperCase s = map upperChar s"

subsection \<open>The constructor\<close>

definition BlockMenu_new :: state where
  "BlockMenu_new =
     \<lparr>buttons = [], listeners = [], reflowWrapper = None, width = None,
      CORNER_RADIUS = None, display = '''', scrollY = 0, canvasTransform = None, rects = [], blocks = [],
      bound = [\<lparr>handle = 0, target = Window, evname = ''resize'', func = SyncViewSize\<rparr>],
      nextId = 1,
      startDownEvent = None, startBlock = None, startblockMenu = None,
      startFlyout = None, onMouseUpWrapper = None, onMouseMoveWrapper = None,
      cursorHand = False, entryEvents = [], mouseDowns = [], contextMenus = [],
      resizeEvents = 0, changeEvents = 0\<rparr>"

subsection \<open>hide\<close>

definition hide :: "state \<Rightarrow> state" where
  "hide st =
     (let st1 = fold unbindEvent (listeners st) st;
          st2 = st1\<lparr>listeners := []\<rparr>;
          st3 = (case reflowWrapper st2 of
                   None \<Rightarrow> st2
                 | Some w \<Rightarrow> (unbindEvent w st2)\<lparr>reflowWrapper := None\<rparr>);
          st4 = fold (\<lambda>b s. if workspace b = MenuWorkspace then dispose b s else s)
                  (getTopBlocks MenuWorkspace st3) st3;
          st5 = fold removeNode (truthyPrefix (buttons st4)) st4
      in st5\<lparr>buttons := []\<rparr>)"

subsection \<open>terminateDrag\<close>

definition BlockMenu_terminateDrag :: "state \<Rightarrow> state" where
  "BlockMenu_terminateDrag st =
     (let st1 = (case onMouseUpWrapper st of
                   None \<Rightarrow> st
                 | Some w \<Rightarrow> (unbindEvent w st)\<lparr>onMouseUpWrapper := None\<rparr>);
          st2 = (case onMouseMoveWrapper st1 of
                   None \<Rightarrow> st1
                 | Some w \<Rightarrow> (unbindEvent w st1)\<lparr>onMouseMoveWrapper := None\<rparr>)
      in st2\<lparr>startDownEvent := None, startBlock := None, startFlyout := None\<rparr>)"

text \<open>
  Modelled from the spec: \<^verbatim>\<open>Blockly.terminateDrag_\<close>, the toolkit's global function that
  block\_menu.js calls at pointer-down and binds to the document's \<^verbatim>\<open>mouseup\<close>, is not
  in block\_menu.js. The spec's "pointer-up cancels pending state" makes it run the
  menu's own \<^verbatim>\<open>Blockly.BlockMenu.terminateDrag_\<close>.
\<close>

definition Blockly_terminateDrag :: "state \<Rightarrow> state" where
  "Blockly_terminateDrag st = BlockMenu_terminateDrag st"

subsection \<open>createBlockFunc\<close>

definition createBlockFunc :: "env \<Rightarrow> block \<Rightarrow> event \<Rightarrow> state \<Rightarrow> state outcome" where
  "createBlockFunc env originBlock e st =
     (if isRightButton env e then Returns st
      else if disabled originBlock then Returns st
      else
        let st1 = (if EntryIsObject env
                   then st\<lparr>entryEvents := entryEvents st @ [''entryBlocklyChanged'']\<rparr>
                   else st);
            x = blockToDom originBlock;
            (blk, st2) = domToBlock env MenuWorkspace x st1;
            st3 = updBlock (bid blk) (\<lambda>c. c\<lparr>isInBlockMenu := True\<rparr>) st2
        in (case svgRoot originBlock of
              None \<Rightarrow> Throws (Thrown ''originBlock is not rendered.'') st3
            | Some svgRootOld \<Rightarrow>
               (let xyOld = getSvgXY env st3 originBlock
                in (case svgRoot blk of
                      None \<Rightarrow> Throws (Thrown ''block is not rendered.'') st3
                    | Some svgRootNew \<Rightarrow>
                       (let xyNew = getSvgXY env st3 blk;
                            st4 = updBlock (bid blk)
                                    (moveBy (nsub (fst xyOld) (fst xyNew))
                                       (nsub (snd xyOld) (snd xyNew))) st3;
                            (workspaceBlock, st5) = domToBlock env MainWorkspace x st4
                        in (case svgRoot workspaceBlock of
                              None \<Rightarrow> Throws (Thrown ''block is not rendered.'') st5
                            | Some svgRootNewWorkspace \<Rightarrow>
                               (let xyNewWorkspace = getSvgXY env st5 workspaceBlock;
                                    stalkerX = nsub (nsub (fst xyOld) (fst xyNewWorkspace))
                                                 (Num 202);
                                    stalkerY = nadd (nsub (snd xyOld) (snd xyNewWorkspace))
                                                 (Num 33);
                                    st6 = updBlock (bid workspaceBlock)
                                            (moveBy stalkerX stalkerY) st5;
                                    st7 = updBlock (bid workspaceBlock)
                                            (\<lambda>c. c\<lparr>startDragX := Some stalkerX,
                                                    startDragY := Some stalkerY\<rparr>) st6;
                                    st8 = updBlock (bid blk)
                                            (\<lambda>c. c\<lparr>stalkerBlock := Some (bid workspaceBlock)\<rparr>)
                                            st7
                                in Returns
                                     (st8\<lparr>mouseDowns := mouseDowns st8 @ [(bid blk, e)]\<rparr>))))))))"

subsection \<open>blockMouseDown and onMouseMove\<close>

definition blockMouseDown :: "env \<Rightarrow> block \<Rightarrow> event \<Rightarrow> state \<Rightarrow> state" where
  "blockMouseDown env b e st =
     (let st1 = Blockly_terminateDrag st
      in if isRightButton env e then
           (if ContextMenuDefined env
            then st1\<lparr>contextMenus := contextMenus st1 @ [bid b]\<rparr>
            else st1)
         else
           let st2 = st1\<lparr>cursorHand := True\<rparr>;
               st3 = st2\<lparr>startDownEvent := Some e, startBlock := Some b,
                         startblockMenu := Some ThisBlockMenu\<rparr>;
               (up, st4) = bindEvent Document ''mouseup'' TerminateDrag st3;
               st5 = st4\<lparr>onMouseUpWrapper := Some up\<rparr>;
               (mv, st6) = bindEvent Document ''mousemove'' OnMouseMove st5
           in st6\<lparr>onMouseMoveWrapper := Some mv\<rparr>)"

definition rogueMove :: "event \<Rightarrow> bool" where
  "rogueMove e = (etype e = ''mousemove'' \<and> clientX e \<le> 1 \<and> clientY e = 0 \<and> button e = 0)"

text \<open>
  \<^verbatim>\<open>onMouseMove_\<close> reads the static fields without a check. With no start event or
  no start menu the read faults; with no start block the handler is entered all the
  same and faults after its right-button guard. The start block is an object: the
  handler gets it as it is now while it is live, and as pointer-down recorded it once
  it has been disposed.
\<close>

definition onMouseMove :: "env \<Rightarrow> event \<Rightarrow> state \<Rightarrow> state outcome" where
  "onMouseMove env e st =
     (if rogueMove e then Returns st
      else
        case startDownEvent st of
          None \<Rightarrow> Throws TypeError st
        | Some down \<Rightarrow>
            let dx = clientX e - clientX down;
                dy = clientY e - clientY down;
                dr = sqrt (dx ^ 2 + dy ^ 2);
                noBlock = (if isRightButton env down then Returns st else Throws TypeError st)
            in if dr > DRAG_RADIUS env then
                 (case startblockMenu st of
                    None \<Rightarrow> Throws TypeError st
                  | Some menu \<Rightarrow>
                      (case startBlock st of
                         None \<Rightarrow> noBlock
                       | Some b0 \<Rightarrow>
                           (case getBlock (bid b0) st of
                              None \<Rightarrow> createBlockFunc env b0 down st
                            | Some b \<Rightarrow> createBlockFunc env b down st)))
               else Returns st)"

subsection \<open>show\<close>

definition isBlockNode :: "xml \<Rightarrow> bool" where
  "isBlockNode x =
     (case tagName x of
        None \<Rightarrow> False
      | Some t \<Rightarrow> t \<noteq> [] \<and> toUpperCase t = ''BLOCK'')"

text \<open>
  The first loop of \<^verbatim>\<open>show\<close>, over an XML list: the local arrays \<^verbatim>\<open>blocks\<close> and
  \<^verbatim>\<open>gaps\<close> are one list of pairs, since the loop pushes to both at once.
\<close>

fun createBlocks :: "env \<Rightarrow> real \<Rightarrow> xml list \<Rightarrow> state \<Rightarrow> (block \<times> real) list \<times> state" where
  "createBlocks env margin [] st = ([], st)"
| "createBlocks env margin (x # xs) st =
     (if isBlockNode x then
        (let (b, st1) = domToBlock env MenuWorkspace x st;
             st2 = updBlock (bid b) (\<lambda>c. c\<lparr>isInFlyout := True, isInBlockMenu := True\<rparr>) st1;
             (rest, st3) = createBlocks env margin xs st2
         in ((b\<lparr>isInFlyout := True, isInBlockMenu := True\<rparr>, margin) # rest, st3))
      else createBlocks env margin xs st)"

text \<open>
  The two special categories: \<^verbatim>\<open>Blockly.Variables.blockMenuCategory\<close> and
  \<^verbatim>\<open>Blockly.Procedures.blockMenuCategory\<close> fill \<^verbatim>\<open>blocks\<close> and \<^verbatim>\<open>gaps\<close> with blocks
  they create in the menu's workspace, from the templates and gaps of \<open>env\<close>.
\<close>

fun blockMenuCategory :: "env \<Rightarrow> (xml \<times> real) list \<Rightarrow> state \<Rightarrow> (block \<times> real) list \<times> state" where
  "blockMenuCategory env [] st = ([], st)"
| "blockMenuCategory env ((x, g) # xs) st =
     (let (b, st1) = domToBlock env MenuWorkspace x st;
          (rest, st2) = blockMenuCategory env xs st1
      in ((b, g) # rest, st2))"

definition entryHandler :: "env \<Rightarrow> string \<Rightarrow> handler option" where
  "entryHandler env t =
     (if EntryIsObject env \<and> t = ''make_variable'' then Some EntryCreateVariable
      else if EntryIsObject env \<and> t = ''add_message'' then Some EntryCreateMessage
      else if EntryIsObject env \<and> t = ''delete_message'' then Some EntryDeleteMessage
      else if EntryIsObject env \<and> t = ''remove_variable'' then Some EntryRemoveVariable
      else if EntryIsObject env \<and> t = ''change_variable_name''
           then Some EntryChangeVariableName
      else None)"

text \<open>
  One round of the layout loop, for the block \<open>b\<close> at index \<open>i\<close> with its gap, in two
  parts: \<open>layoutPlace\<close> is the round up to \<^verbatim>\<open>this.buttons_[i] = rect\<close> and gives the
  next cursor and the rectangle, \<open>layoutBind\<close> is the binding of the handlers. The
  block's connections, size and type are fixed by its template, so they are read from
  \<open>b\<close>; what the round changes (flags, position, rectangle) is written to the block of
  that identity in the state. Of a block's descendants only the block itself is kept.
\<close>

definition layoutPlace ::
  "env \<Rightarrow> block \<Rightarrow> real \<Rightarrow> nat \<Rightarrow> real \<Rightarrow> state \<Rightarrow> real \<times> elem \<times> state" where
  "layoutPlace env b gap i cursorY st =
     (let st1 = updBlock (bid b)
                  (\<lambda>c. c\<lparr>isInFlyout := True,
                          commentText := (if CommentDefined env then None else commentText c)\<rparr>)
                  st;
          blockHW = getHeightWidth b;
          x = (if outputConnection b then 10 + hw_height blockHW / 2 else 10);
          cursorY1 = (if outputConnection b then cursorY
                      else if \<not> previousConnection b \<and> nextConnection b then cursorY + 10
                      else if \<not> previousConnection b \<and> \<not> nextConnection b then cursorY + 10
                      else cursorY + 7);
          st2 = updBlock (bid b) (moveBy (Num x) (Num cursorY1)) st1;
          cursorY2 = (if \<not> previousConnection b \<and> \<not> nextConnection b
                      then cursorY1 + 10 else cursorY1);
          cursorY3 = cursorY2 + (hw_height blockHW + gap);
          (rect, st3) = createSvgRect st2;
          st4 = insertRect rect st3;
          st5 = updBlock (bid b) (\<lambda>c. c\<lparr>blockMenuRect := Some rect\<rparr>) st4
      in (cursorY3, rect, st5\<lparr>buttons := arrayAssign (buttons st5) i rect\<rparr>))"

definition layoutBind :: "env \<Rightarrow> block \<Rightarrow> elem \<Rightarrow> state \<Rightarrow> state outcome" where
  "layoutBind env b rect st =
     (let svgroot = svgRoot b
      in (case (if isAddable b
                then (case bindRoot svgroot (BlockMouseDown (bid b)) st of
                        Throws f s \<Rightarrow> Throws f s
                      | Returns (l, s) \<Rightarrow> Returns (s\<lparr>listeners := listeners s @ [l]\<rparr>))
                else Returns st) of
            Throws f s \<Rightarrow> Throws f s
          | Returns st7 \<Rightarrow>
             (case (case entryHandler env (btype b) of
                      None \<Rightarrow> Returns st7
                    | Some h \<Rightarrow>
                       (case bindRoot svgroot h st7 of
                          Throws f s \<Rightarrow> Throws f s
                        | Returns (l, s) \<Rightarrow> Returns s)) of
                Throws f s \<Rightarrow> Throws f s
              | Returns st8 \<Rightarrow>
                 (let (l, st9) = bindEvent (Node rect) ''mousedown'' (CreateBlock (bid b)) st8
                  in Returns (st9\<lparr>listeners := listeners st9 @ [l]\<rparr>)))))"

definition layoutStep ::
  "env \<Rightarrow> block \<Rightarrow> real \<Rightarrow> nat \<Rightarrow> real \<Rightarrow> state \<Rightarrow> (real \<times> state) outcome" where
  "layoutStep env b gap i cursorY st =
     (let (cursorY3, rect, st6) = layoutPlace env b gap i cursorY st
      in (case layoutBind env b rect st6 of
            Throws f s \<Rightarrow> Throws f s
          | Returns st9 \<Rightarrow> Returns (cursorY3, st9)))"

fun layoutBlocks ::
  "env \<Rightarrow> (block \<times> real) list \<Rightarrow> nat \<Rightarrow> real \<Rightarrow> state \<Rightarrow> state outcome" where
  "layoutBlocks env [] i cursorY st = Returns st"
| "layoutBlocks env ((b, gap) # rest) i cursorY st =
     (case layoutStep env b gap i cursorY st of
        Throws f s \<Rightarrow> Throws f s
      | Returns (cursorY', st') \<Rightarrow> layoutBlocks env rest (Suc i) cursorY' st')"

subsection \<open>reflow\<close>

text \<open>
  One round of the second loop of \<^verbatim>\<open>reflow\<close>, for the block \<open>b\<close> as
  \<^verbatim>\<open>getTopBlocks\<close> gave it: \<open>margin\<close> is \<^verbatim>\<open>this.CORNER_RADIUS\<close>, a number or
  undefined.
\<close>

definition reflowBlock :: "env \<Rightarrow> num \<Rightarrow> real option \<Rightarrow> block \<Rightarrow> state \<Rightarrow> state" where
  "reflowBlock env blockMenuWidth margin b st =
     (let blockHW = getHeightWidth b;
          dx = nsub (nsub (nsub blockMenuWidth (toNumber margin)) (Num (TAB_WIDTH env)))
                 (posX b);
          st1 = (if RTL env then updBlock (bid b) (moveBy dx (Num 0)) st else st);
          blockXY_x = (if RTL env then nadd (posX b) dx else posX b);
          blockXY_y = posY b
      in (case blockMenuRect b of
            None \<Rightarrow> st1
          | Some r \<Rightarrow>
              updRect r
                (\<lambda>n. n\<lparr>attrWidth := Num (hw_width blockHW),
                        attrHeight := Num (hw_height blockHW),
                        attrX := (if RTL env then nsub blockXY_x (Num (hw_width blockHW))
                                  else blockXY_x),
                        attrY := blockXY_y\<rparr>)
                st1))"

text \<open>The width that \<^verbatim>\<open>reflow\<close> computes: the first loop and the sum after it.\<close>

definition computeWidth :: "env \<Rightarrow> state \<Rightarrow> num" where
  "computeWidth env st =
     (let margin = CORNER_RADIUS st;
          blockMenuWidth =
            fold (\<lambda>b w. max w (hw_width (getHeightWidth b))) (getTopBlocks MenuWorkspace st) 0
      in nadd (Num blockMenuWidth)
           (nadd (nadd (nadd (toNumber margin) (Num (TAB_WIDTH env)))
                    (ndiv (toNumber margin) (Num 2)))
              (Num (scrollbarThickness env))))"

definition reflow :: "env \<Rightarrow> state \<Rightarrow> state" where
  "reflow env st =
     (let margin = CORNER_RADIUS st;
          bs = getTopBlocks MenuWorkspace st;
          blockMenuWidth = computeWidth env st
      in if looseNotEqual (width st) blockMenuWidth then
           (let st1 = fold (reflowBlock env blockMenuWidth margin) bs st;
                st2 = st1\<lparr>width := Some blockMenuWidth\<rparr>
            in st2\<lparr>resizeEvents := Suc (resizeEvents st2)\<rparr>)
         else st)"

subsection \<open>show, continued\<close>

text \<open>\<^verbatim>\<open>show\<close> up to the end of its layout loop.\<close>

definition showLayout :: "env \<Rightarrow> xmlList \<Rightarrow> state \<Rightarrow> state outcome" where
  "showLayout env xmlList st =
     (let st0 = hide st;
          margin = 0;
          st1 = st0\<lparr>display := ''block''\<rparr>;
          (bs, st2) = (case xmlList of
                         VariablesNameType \<Rightarrow> blockMenuCategory env (variablesCategory env) st1
                       | ProceduresNameType \<Rightarrow> blockMenuCategory env (proceduresCategory env) st1
                       | XmlNodes xs \<Rightarrow> createBlocks env margin xs st1)
      in layoutBlocks env bs 0 10 st2)"

definition show_menu :: "env \<Rightarrow> xmlList \<Rightarrow> state \<Rightarrow> state outcome" where
  "show_menu env xmlList st =
     (case showLayout env xmlList st of
        Throws f s \<Rightarrow> Throws f s
      | Returns st3 \<Rightarrow>
         (let st4 = st3\<lparr>width := Some (Num 0)\<rparr>;
              st5 = reflow env st4;
              st6 = st5\<lparr>resizeEvents := Suc (resizeEvents st5)\<rparr>;
              (w, st7) = bindEvent Canvas ''blocklyWorkspaceChange'' Reflow st6;
              st8 = st7\<lparr>reflowWrapper := Some w\<rparr>
          in Returns (st8\<lparr>changeEvents := Suc (changeEvents st8)\<rparr>)))"

subsection \<open>getMetrics and setMetrics\<close>

definition getMetrics :: "env \<Rightarrow> state \<Rightarrow> metrics option" where
  "getMetrics env st =
     (let rect = viewRect env;
          optionBox = (case canvasBBox env of
                         Some box \<Rightarrow> box
                       | None \<Rightarrow> (0, 0))
      in Some \<lparr>viewHeight = fst rect, viewWidth = snd rect,
               contentHeight = fst optionBox + snd optionBox,
               viewTop = - scrollY st, contentTop = 0,
               absoluteTop = 0, absoluteLeft = 0\<rparr>)"

text \<open>
  The argument is \<^verbatim>\<open>yRatio.y\<close>: \<open>Some r\<close> when it is a number, \<open>None\<close> otherwise.
\<close>

definition setMetrics :: "env \<Rightarrow> real option \<Rightarrow> state \<Rightarrow> state" where
  "setMetrics env yRatio_y st =
     (case getMetrics env st of
        None \<Rightarrow> st
      | Some m \<Rightarrow>
         (let st1 = (case yRatio_y of
                       Some r \<Rightarrow> st\<lparr>scrollY := - contentHeight m * r - contentTop m\<rparr>
                     | None \<Rightarrow> st);
              y = scrollY st1 + absoluteTop m
          in st1\<lparr>canvasTransform := Some y\<rparr>))"

subsection \<open>Concrete inputs\<close>

text \<open>
  A page as the Entry editor sets it up: the creation of variables is offered by a
  block of type \<^verbatim>\<open>make_variable\<close>, the right button is button 2, the drag radius is 5.
\<close>

definition env0 :: env where
  "env0 = \<lparr>isRightButton = (\<lambda>e. button e = 2), DRAG_RADIUS = 5,
            TAB_WIDTH = 8, scrollbarThickness = 15, RTL = False, EntryIsObject = True,
            CommentDefined = True, ContextMenuDefined = True, rendered = (\<lambda>ws. True),
            mainOrigin = (0, 0), viewRect = (600, 250), canvasBBox = Some (300, 10),
            variablesCategory = [], proceduresCategory = []\<rparr>"

definition xMakeVariable :: xml where
  "xMakeVariable =
     \<lparr>tagName = Some ''block'', typeAttr = ''make_variable'', hasOutput = False,
      hasPrevious = False, hasNext = False, boxHeight = 30, boxWidth = 120,
      isDisabled = False, addable = False, commentAttr = None\<rparr>"

definition xStack :: xml where
  "xStack =
     \<lparr>tagName = Some ''block'', typeAttr = ''move_direction'', hasOutput = False,
      hasPrevious = True, hasNext = True, boxHeight = 30, boxWidth = 120,
      isDisabled = False, addable = True, commentAttr = None\<rparr>"

definition xValue :: xml where
  "xValue =
     \<lparr>tagName = Some ''block'', typeAttr = ''number'', hasOutput = True,
      hasPrevious = False, hasNext = False, boxHeight = 20, boxWidth = 40,
      isDisabled = False, addable = True, commentAttr = None\<rparr>"

definition mouseEvent :: "string \<Rightarrow> real \<Rightarrow> real \<Rightarrow> int \<Rightarrow> event" where
  "mouseEvent t x y b = \<lparr>etype = t, clientX = x, clientY = y, button = b\<rparr>"

text \<open>A block of the menu as \<^verbatim>\<open>show\<close> leaves it, and the menu that shows just this block.\<close>

definition stackBlock :: block where
  "stackBlock =
     \<lparr>bid = 1, dom = xStack, workspace = MenuWorkspace, svgRoot = Some 2,
      posX = Num 10, posY = Num 17, blockMenuRect = Some 3,
      isInFlyout = True, isInBlockMenu = True, commentText = None, stalkerBlock = None,
      startDragX = None, startDragY = None\<rparr>"

definition shownStack :: state where
  "shownStack =
     BlockMenu_new
       \<lparr>buttons := [Some 3],
        listeners := [\<lparr>handle = 4, target = Node 2, evname = ''mousedown'',
                        func = BlockMouseDown 1\<rparr>,
                      \<lparr>handle = 5, target = Node 3, evname = ''mousedown'',
                        func = CreateBlock 1\<rparr>],
        reflowWrapper := Some \<lparr>handle = 6, target = Canvas,
                               evname = ''blocklyWorkspaceChange'', func = Reflow\<rparr>,
        width := Some NaN, display := ''block'',
        rects := [\<lparr>rid = 3, attrWidth = Num 120, attrHeight = Num 30, attrX = Num 10,
                   attrY = Num 17\<rparr>],
        blocks := [stackBlock],
        bound := [\<lparr>handle = 0, target = Window, evname = ''resize'', func = SyncViewSize\<rparr>,
                  \<lparr>handle = 4, target = Node 2, evname = ''mousedown'',
                    func = BlockMouseDown 1\<rparr>,
                  \<lparr>handle = 5, target = Node 3, evname = ''mousedown'',
                    func = CreateBlock 1\<rparr>,
                  \<lparr>handle = 6, target = Canvas, evname = ''blocklyWorkspaceChange'',
                    func = Reflow\<rparr>],
        nextId := 7, resizeEvents := 2, changeEvents := 1\<rparr>"

subsection \<open>Auxiliary definitions\<close>

text \<open>
  The gaps of the layout, in the words of the layout rule: what a block's template adds
  before the block is placed and after it. \<open>cursors\<close> are the y positions the rule
  gives to a list of templates with their gaps, and \<open>templatesOf\<close> are the templates
  and gaps that \<^verbatim>\<open>show\<close> lays out for its argument.
\<close>

definition leadingGap :: "xml \<Rightarrow> real" where
  "leadingGap x = (if hasOutput x then 0 else if \<not> hasPrevious x then 10 else 7)"

definition trailingGap :: "xml \<Rightarrow> real" where
  "trailingGap x = (if \<not> hasPrevious x \<and> \<not> hasNext x then 10 else 0)"

fun cursors :: "real \<Rightarrow> (xml \<times> real) list \<Rightarrow> real list" where
  "cursors cy [] = []"
| "cursors cy ((x, g) # xs) =
     (cy + leadingGap x) # cursors (cy + leadingGap x + trailingGap x + boxHeight x + g) xs"

definition templatesOf :: "env \<Rightarrow> xmlList \<Rightarrow> (xml \<times> real) list" where
  "templatesOf env xmlList =
     (case xmlList of
        VariablesNameType \<Rightarrow> variablesCategory env
      | ProceduresNameType \<Rightarrow> proceduresCategory env
      | XmlNodes xs \<Rightarrow> map (\<lambda>x. (x, 0)) (filter isBlockNode xs))"

text \<open>
  The menu's blocks are distinct objects, older than the next identity.
\<close>

definition menuFresh :: "state \<Rightarrow> bool" where
  "menuFresh st =
     (distinct (map bid (getTopBlocks MenuWorkspace st))
      \<and> (\<forall>c\<in>set (getTopBlocks MenuWorkspace st). bid c < nextId st))"

abbreviation menuBlocks :: "state \<Rightarrow> block list" where
  "menuBlocks st \<equiv> getTopBlocks MenuWorkspace st"

section \<open>Properties\<close>

lemmas prim_defs = outputConnection_def previousConnection_def nextConnection_def disabled_def
  isAddable_def btype_def getHeightWidth_def blockToDom_def getTopBlocks_def getBlock_def
  updBlock_def moveBy_def dispose_def bindEvent_def unbindEvent_def bindRoot_def
  createSvgRect_def insertRect_def removeNode_def updRect_def domToBlock_def canvasOrigin_def
  getSvgXY_def arrayAssign_def upperChar_def toUpperCase_def isBlockNode_def entryHandler_def

lemmas input_defs = env0_def xMakeVariable_def xStack_def xValue_def mouseEvent_def
  stackBlock_def shownStack_def BlockMenu_new_def

subsection \<open>Numbers\<close>

lemma nadd_zero [simp]: "nadd p (Num 0) = p" "nadd (Num 0) p = p"
  by (cases p; simp)+

lemma nsub_zero [simp]: "nsub p (Num 0) = p"
  by (cases p) simp_all

lemma nadd_NaN [simp]: "nadd p NaN = NaN"
  by (cases p) simp_all

lemma nsub_NaN [simp]: "nsub p NaN = NaN"
  by (cases p) simp_all

lemma map2_nadd_zero:
  assumes "\<forall>x\<in>set xs. x = Num 0" and "length xs = length ys"
  shows "map2 nadd xs (map Num ys) = map Num ys"
  using assms(2,1) by (induction xs ys rule: list_induct2) simp_all

subsection \<open>The loops of reflow\<close>

lemma fold_max_Max:
  "fold (\<lambda>b w. max w (f b)) bs (a::real) = Max (insert a (f ` set bs))"
proof (induction bs arbitrary: a)
  case Nil
  show ?case by simp
next
  case (Cons b bs)
  have "Max (insert (max a (f b)) (f ` set bs)) = Max (insert a (insert (f b) (f ` set bs)))"
    by (cases "bs = []") (simp_all add: max.assoc)
  with Cons show ?case by simp
qed

text \<open>
  With the property defined the width is the widest block plus the margins; with the
  property undefined, as the constructor leaves it, the width is \<^verbatim>\<open>NaN\<close>.
\<close>

lemma computeWidth_defined:
  "CORNER_RADIUS st = Some m \<Longrightarrow>
   computeWidth env st =
     Num (Max (insert 0 ((\<lambda>b. hw_width (getHeightWidth b)) ` set (getTopBlocks MenuWorkspace st)))
          + (m + TAB_WIDTH env + m / 2 + scrollbarThickness env))"
  by (simp add: computeWidth_def Let_def fold_max_Max)

lemma computeWidth_undefined: "CORNER_RADIUS st = None \<Longrightarrow> computeWidth env st = NaN"
  by (simp add: computeWidth_def Let_def)

lemma reflowBlock_blocks:
  "blocks (reflowBlock env W m b st) =
     map (\<lambda>c. if RTL env \<and> bid c = bid b
               then moveBy (nsub (nsub (nsub W (toNumber m)) (Num (TAB_WIDTH env))) (posX b))
                      (Num 0) c
               else c)
       (blocks st)"
  by (cases "blockMenuRect b")
     (auto simp: reflowBlock_def updRect_def updBlock_def Let_def)

lemma reflowBlock_frame:
  "buttons (reflowBlock env W m b st) = buttons st"
  "listeners (reflowBlock env W m b st) = listeners st"
  "bound (reflowBlock env W m b st) = bound st"
  "nextId (reflowBlock env W m b st) = nextId st"
  "width (reflowBlock env W m b st) = width st"
  "resizeEvents (reflowBlock env W m b st) = resizeEvents st"
  "CORNER_RADIUS (reflowBlock env W m b st) = CORNER_RADIUS st"
  by (cases "blockMenuRect b"; simp add: reflowBlock_def updRect_def updBlock_def Let_def)+

lemma fold_reflowBlock_blocks:
  "blocks (fold (reflowBlock env W m) bs st) =
     map (\<lambda>c. fold (\<lambda>b c'. if RTL env \<and> bid c' = bid b
                             then moveBy (nsub (nsub (nsub W (toNumber m)) (Num (TAB_WIDTH env)))
                                            (posX b)) (Num 0) c'
                             else c') bs c)
       (blocks st)"
proof (induction bs arbitrary: st)
  case Nil
  show ?case by simp
next
  case (Cons b bs)
  show ?case
    by (simp add: Cons reflowBlock_blocks o_def)
qed

lemma fold_reflowBlock_frame:
  "buttons (fold (reflowBlock env W m) bs st) = buttons st"
  "listeners (fold (reflowBlock env W m) bs st) = listeners st"
  "bound (fold (reflowBlock env W m) bs st) = bound st"
  "nextId (fold (reflowBlock env W m) bs st) = nextId st"
  "width (fold (reflowBlock env W m) bs st) = width st"
  "CORNER_RADIUS (fold (reflowBlock env W m) bs st) = CORNER_RADIUS st"
  by (induction bs arbitrary: st; simp add: reflowBlock_frame)+

lemma fold_reflowBlock_resizeEvents:
  "resizeEvents (fold (reflowBlock env W m) bs st) = resizeEvents st"
  by (induction bs arbitrary: st) (simp_all add: reflowBlock_frame)

lemma fold_move_none:
  assumes "\<forall>b\<in>set bs. bid b \<noteq> bid c"
  shows "fold (\<lambda>b c'. if R \<and> bid c' = bid b then moveBy (d b) (Num 0) c' else c') bs c = c"
  using assms by (induction bs arbitrary: c) auto

lemma fold_skip: "fold (\<lambda>b c'. c') bs c = c"
  by (induction bs arbitrary: c) auto

lemma fold_move_unique:
  assumes "c \<in> set bs" and "distinct (map bid bs)"
  shows "fold (\<lambda>b c'. if R \<and> bid c' = bid b then moveBy (d b) (Num 0) c' else c') bs c
           = (if R then moveBy (d c) (Num 0) c else c)"
  using assms
proof (induction bs arbitrary: c)
  case Nil
  then show ?case by simp
next
  case (Cons b bs)
  have "bid b \<notin> bid ` set bs"
    using Cons.prems(2) by simp
  then have nb: "\<forall>x\<in>set bs. bid x \<noteq> bid b"
    by (metis imageI)
  show ?case
  proof (cases "c = b")
    case True
    have "\<forall>x\<in>set bs. bid x \<noteq> bid (moveBy (d b) (Num 0) b)"
      using nb by (simp add: moveBy_def)
    then show ?thesis using True nb by (simp add: fold_move_none)
  next
    case False
    then have c: "c \<in> set bs"
      using Cons.prems by auto
    then have "bid c \<noteq> bid b"
      using nb by blast
    then show ?thesis using c Cons by simp
  qed
qed

lemma fold_move_workspace:
  "workspace (fold (\<lambda>b c'. if R \<and> bid c' = bid b then moveBy (d b) (Num 0) c' else c') bs c)
     = workspace c"
  by (induction bs arbitrary: c) (simp_all add: moveBy_def)

lemma fold_move_fields:
  "bid (fold (\<lambda>b c'. if R \<and> bid c' = bid b then moveBy (d b) (Num 0) c' else c') bs c) = bid c"
  "dom (fold (\<lambda>b c'. if R \<and> bid c' = bid b then moveBy (d b) (Num 0) c' else c') bs c) = dom c"
  "blockMenuRect (fold (\<lambda>b c'. if R \<and> bid c' = bid b then moveBy (d b) (Num 0) c' else c') bs c)
     = blockMenuRect c"
  "posY (fold (\<lambda>b c'. if R \<and> bid c' = bid b then moveBy (d b) (Num 0) c' else c') bs c) = posY c"
  by (induction bs arbitrary: c; simp add: moveBy_def)+

lemma reflow_unchanged:
  "\<not> looseNotEqual (width st) (computeWidth env st) \<Longrightarrow> reflow env st = st"
  by (simp add: reflow_def Let_def)

lemma reflow_changed:
  assumes "looseNotEqual (width st) (computeWidth env st)"
  shows "reflow env st =
     (fold (reflowBlock env (computeWidth env st) (CORNER_RADIUS st))
        (getTopBlocks MenuWorkspace st) st)
       \<lparr>width := Some (computeWidth env st), resizeEvents := Suc (resizeEvents st)\<rparr>"
  using assms
  by (simp add: reflow_def Let_def fold_reflowBlock_frame
      fold_reflowBlock_resizeEvents)

lemma reflow_changed_blocks:
  assumes w: "looseNotEqual (width st) (computeWidth env st)"
    and d: "distinct (map bid (getTopBlocks MenuWorkspace st))"
  shows "getTopBlocks MenuWorkspace (reflow env st) =
     map (\<lambda>c. if RTL env
               then moveBy (nsub (nsub (nsub (computeWidth env st) (toNumber (CORNER_RADIUS st)))
                                    (Num (TAB_WIDTH env))) (posX c)) (Num 0) c
               else c)
       (getTopBlocks MenuWorkspace st)"
proof -
  let ?W = "computeWidth env st" and ?m = "CORNER_RADIUS st"
  let ?bs = "getTopBlocks MenuWorkspace st"
  let ?d = "\<lambda>b. nsub (nsub (nsub ?W (toNumber ?m)) (Num (TAB_WIDTH env))) (posX b)"
  let ?G = "\<lambda>c. fold (\<lambda>b c'. if RTL env \<and> bid c' = bid b
                                then moveBy (?d b) (Num 0) c' else c') ?bs c"
  have "getTopBlocks MenuWorkspace (reflow env st) = map ?G ?bs"
    by (simp add: reflow_changed [OF w] getTopBlocks_def fold_reflowBlock_blocks filter_map
        o_def fold_move_workspace)
  also have "\<dots> = map (\<lambda>c. if RTL env then moveBy (?d c) (Num 0) c else c) ?bs"
    by (rule map_cong [OF refl]) (simp add: fold_move_unique [OF _ d])
  finally show ?thesis .
qed

lemma looseNotEqual_NaN: "looseNotEqual w NaN"
proof (cases w)
  case None
  then show ?thesis by simp
next
  case (Some a)
  then show ?thesis by (cases a) simp_all
qed

text \<open>
  With the property undefined every \<^verbatim>\<open>reflow\<close> stores the width \<^verbatim>\<open>NaN\<close> and fires
  the resize event, and in right-to-left mode it moves every block to x \<^verbatim>\<open>NaN\<close>.
\<close>

lemma reflow_undefined_margin:
  assumes "CORNER_RADIUS st = None"
  shows "width (reflow env st) = Some NaN"
    and "resizeEvents (reflow env st) = Suc (resizeEvents st)"
    and "RTL env \<Longrightarrow> distinct (map bid (getTopBlocks MenuWorkspace st)) \<Longrightarrow>
         \<forall>b\<in>set (getTopBlocks MenuWorkspace (reflow env st)). posX b = NaN"
proof -
  have c: "computeWidth env st = NaN"
    by (rule computeWidth_undefined [OF assms])
  have w: "looseNotEqual (width st) (computeWidth env st)"
    by (simp add: c looseNotEqual_NaN)
  show "width (reflow env st) = Some NaN"
    by (simp add: reflow_changed [OF w] c)
  show "resizeEvents (reflow env st) = Suc (resizeEvents st)"
    by (simp add: reflow_changed [OF w])
  show "\<forall>b\<in>set (getTopBlocks MenuWorkspace (reflow env st)). posX b = NaN"
    if "RTL env" and "distinct (map bid (getTopBlocks MenuWorkspace st))"
    using that(1) by (simp add: reflow_changed_blocks [OF w that(2)] c moveBy_def)
qed

subsection \<open>The loops of hide and show\<close>

lemma menuBlocks_updBlock:
  assumes "\<And>c. workspace (f c) = workspace c"
  shows "menuBlocks (updBlock i f st) = map (\<lambda>c. if bid c = i then f c else c) (menuBlocks st)"
  by (simp add: getTopBlocks_def updBlock_def filter_map o_def assms if_distrib [of workspace]
      cong: if_cong)

lemma bid_notin_image: "bid b \<notin> bid ` set xs \<Longrightarrow> c \<in> set xs \<Longrightarrow> bid c \<noteq> bid b"
  by (metis imageI)

lemma map_upd_at:
  assumes "distinct (map bid (ds @ b # ts))" and "bid (f b) = bid b"
  shows "map (\<lambda>c. if bid c = bid b then f c else c) (ds @ b # ts) = ds @ f b # ts"
proof -
  have "bid b \<notin> bid ` set ds" "bid b \<notin> bid ` set ts"
    using assms(1) by auto
  then have "\<forall>c\<in>set ds. bid c \<noteq> bid b" "\<forall>c\<in>set ts. bid c \<noteq> bid b"
    using bid_notin_image by blast+
  then have "map (\<lambda>c. if bid c = bid b then f c else c) ds = ds"
    "map (\<lambda>c. if bid c = bid b then f c else c) ts = ts"
    by (simp_all add: map_idI)
  then show ?thesis by simp
qed

lemma fold_unbindEvent_frame:
  "blocks (fold unbindEvent ls s) = blocks s"
  "nextId (fold unbindEvent ls s) = nextId s"
  "listeners (fold unbindEvent ls s) = listeners s"
  "buttons (fold unbindEvent ls s) = buttons s"
  "reflowWrapper (fold unbindEvent ls s) = reflowWrapper s"
  by (induction ls arbitrary: s; simp add: unbindEvent_def)+

lemma fold_removeNode_frame:
  "blocks (fold removeNode rs s) = blocks s"
  "nextId (fold removeNode rs s) = nextId s"
  "listeners (fold removeNode rs s) = listeners s"
  by (induction rs arbitrary: s; simp add: removeNode_def)+

lemma fold_dispose_frame:
  "nextId (fold (\<lambda>b s. if workspace b = MenuWorkspace then dispose b s else s) bs s) = nextId s"
  "listeners (fold (\<lambda>b s. if workspace b = MenuWorkspace then dispose b s else s) bs s)
     = listeners s"
  "buttons (fold (\<lambda>b s. if workspace b = MenuWorkspace then dispose b s else s) bs s)
     = buttons s"
  by (induction bs arbitrary: s; simp add: dispose_def)+

lemma fold_dispose_blocks:
  "blocks (fold (\<lambda>b s. if workspace b = MenuWorkspace then dispose b s else s) bs s)
     = filter (\<lambda>c. bid c \<notin> bid ` set (filter (\<lambda>b. workspace b = MenuWorkspace) bs)) (blocks s)"
  by (induction bs arbitrary: s) (auto simp: dispose_def intro: filter_cong)

lemma hide_menuBlocks: "menuBlocks (hide st) = []"
  by (auto simp: hide_def Let_def getTopBlocks_def fold_dispose_blocks fold_removeNode_frame
      fold_unbindEvent_frame unbindEvent_def filter_empty_conv split: option.splits)

lemma hide_frame:
  "buttons (hide st) = []" "listeners (hide st) = []" "nextId (hide st) = nextId st"
  by (simp_all add: hide_def Let_def fold_dispose_frame fold_removeNode_frame
      fold_unbindEvent_frame unbindEvent_def split: option.splits)


lemma domToBlock_menu:
  assumes "domToBlock env MenuWorkspace x st = (b, st1)"
  shows "menuBlocks st1 = menuBlocks st @ [b]" "bid b = nextId st"
    "nextId st1 = Suc (Suc (nextId st))" "dom b = x" "posX b = Num 0" "posY b = Num 0"
    "buttons st1 = buttons st" "listeners st1 = listeners st"
  using assms by (auto simp: domToBlock_def getTopBlocks_def Let_def)

lemma menuFresh_snoc:
  assumes "menuFresh st" and "menuBlocks st1 = menuBlocks st @ [b]" and "bid b = nextId st"
    and "nextId st < nextId st1"
  shows "menuFresh st1"
  using assms by (fastforce simp: menuFresh_def)

lemma updBlock_frame:
  "nextId (updBlock i f st) = nextId st" "buttons (updBlock i f st) = buttons st"
  "listeners (updBlock i f st) = listeners st" "rects (updBlock i f st) = rects st"
  "bound (updBlock i f st) = bound st"
  by (simp_all add: updBlock_def)

lemma menuBlocks_updBlock_last:
  assumes "menuFresh st" and "menuBlocks st1 = menuBlocks st @ [b]" and "bid b = nextId st"
    and "\<And>c. workspace (f c) = workspace c" and "bid (f b) = bid b"
  shows "menuBlocks (updBlock (bid b) f st1) = menuBlocks st @ [f b]"
proof -
  have "distinct (map bid (menuBlocks st @ b # []))"
    using assms(1,3) by (fastforce simp: menuFresh_def)
  then show ?thesis
    using map_upd_at [of "menuBlocks st" b "[]" f] assms(2,5)
    by (simp add: menuBlocks_updBlock [OF assms(4)])
qed

lemma createBlocks_menu:
  assumes "createBlocks env margin xs st = (bs, st')" and "menuFresh st"
  shows "menuBlocks st' = menuBlocks st @ map fst bs \<and> menuFresh st' \<and> nextId st \<le> nextId st'
       \<and> (\<forall>b\<in>set (map fst bs). nextId st \<le> bid b \<and> posX b = Num 0 \<and> posY b = Num 0)
       \<and> map (\<lambda>(b, g). (dom b, g)) bs = map (\<lambda>x. (x, margin)) (filter isBlockNode xs)
       \<and> buttons st' = buttons st \<and> listeners st' = listeners st"
  using assms
proof (induction xs arbitrary: st bs st')
  case Nil
  then show ?case by simp
next
  case (Cons x xs)
  show ?case
  proof (cases "isBlockNode x")
    case False
    then show ?thesis using Cons by simp
  next
    case True
    obtain b st1 where d: "domToBlock env MenuWorkspace x st = (b, st1)"
      by (cases "domToBlock env MenuWorkspace x st")
    let ?f = "\<lambda>c. c\<lparr>isInFlyout := True, isInBlockMenu := True\<rparr>"
    let ?st2 = "updBlock (bid b) ?f st1"
    obtain rest st3 where r: "createBlocks env margin xs ?st2 = (rest, st3)"
      by (cases "createBlocks env margin xs ?st2")
    have bs: "bs = (?f b, margin) # rest" and st': "st' = st3"
      using Cons.prems(1) True d r by simp_all
    note m = domToBlock_menu [OF d]
    have m2: "menuBlocks ?st2 = menuBlocks st @ [?f b]"
      by (rule menuBlocks_updBlock_last [OF Cons.prems(2) m(1) m(2)]) simp_all
    have f2: "menuFresh ?st2"
      by (rule menuFresh_snoc [OF Cons.prems(2) m2]) (simp_all add: m updBlock_frame)
    note ih = Cons.IH [OF r f2]
    show ?thesis
      using ih m True m2 by (auto simp: bs st' updBlock_frame)
  qed
qed

lemma blockMenuCategory_menu:
  assumes "blockMenuCategory env ts st = (bs, st')" and "menuFresh st"
  shows "menuBlocks st' = menuBlocks st @ map fst bs \<and> menuFresh st' \<and> nextId st \<le> nextId st'
       \<and> (\<forall>b\<in>set (map fst bs). nextId st \<le> bid b \<and> posX b = Num 0 \<and> posY b = Num 0)
       \<and> map (\<lambda>(b, g). (dom b, g)) bs = ts
       \<and> buttons st' = buttons st \<and> listeners st' = listeners st"
  using assms
proof (induction ts arbitrary: st bs st')
  case Nil
  then show ?case by simp
next
  case (Cons t ts)
  obtain x g where t: "t = (x, g)" by (cases t)
  obtain b st1 where d: "domToBlock env MenuWorkspace x st = (b, st1)"
    by (cases "domToBlock env MenuWorkspace x st")
  obtain rest st2 where r: "blockMenuCategory env ts st1 = (rest, st2)"
    by (cases "blockMenuCategory env ts st1")
  have bs: "bs = (b, g) # rest" and st': "st' = st2"
    using Cons.prems(1) t d r by simp_all
  note m = domToBlock_menu [OF d]
  have f1: "menuFresh st1"
    by (rule menuFresh_snoc [OF Cons.prems(2) m(1) m(2)]) (simp add: m)
  note ih = Cons.IH [OF r f1]
  show ?case
    using ih m by (auto simp: bs st' t)
qed


lemma menuBlocks_updBlock_at:
  assumes "menuBlocks st = ds @ c # ts" and "distinct (map bid (menuBlocks st))"
    and "bid c = i" and "\<And>x. workspace (f x) = workspace x" and "bid (f c) = bid c"
  shows "menuBlocks (updBlock i f st) = ds @ f c # ts"
    and "distinct (map bid (menuBlocks (updBlock i f st)))"
proof -
  have d: "distinct (map bid (ds @ c # ts))"
    using assms(1,2) by simp
  show m: "menuBlocks (updBlock i f st) = ds @ f c # ts"
    using map_upd_at [of ds c ts f, OF d assms(5)] assms(1,3)
    by (simp add: menuBlocks_updBlock [OF assms(4)])
  show "distinct (map bid (menuBlocks (updBlock i f st)))"
    using d assms(5) by (simp add: m)
qed

lemma menuBlocks_frame:
  "menuBlocks (st\<lparr>nextId := n\<rparr>) = menuBlocks st"
  "menuBlocks (st\<lparr>buttons := bs\<rparr>) = menuBlocks st"
  "menuBlocks (st\<lparr>listeners := ls\<rparr>) = menuBlocks st"
  "menuBlocks (st\<lparr>width := w\<rparr>) = menuBlocks st"
  "menuBlocks (st\<lparr>display := d\<rparr>) = menuBlocks st"
  "menuBlocks (st\<lparr>resizeEvents := k\<rparr>) = menuBlocks st"
  "menuBlocks (st\<lparr>changeEvents := k\<rparr>) = menuBlocks st"
  "menuBlocks (st\<lparr>reflowWrapper := rw\<rparr>) = menuBlocks st"
  "menuBlocks (insertRect r st) = menuBlocks st"
  "menuBlocks (snd (bindEvent t nm h st)) = menuBlocks st"
  by (simp_all add: getTopBlocks_def insertRect_def bindEvent_def Let_def)

lemma layoutPlace_menu:
  assumes m: "menuBlocks st = ds @ b # ts" and d: "distinct (map bid (menuBlocks st))"
    and i: "length (buttons st) = i"
    and p: "layoutPlace env b gap i cy st = (cy', rect, st')"
  shows "\<exists>c. menuBlocks st' = ds @ c # ts \<and> bid c = bid b \<and> dom c = dom b
             \<and> posX c = nadd (posX b) (Num (if hasOutput (dom b) then 10 + boxHeight (dom b) / 2 else 10))
             \<and> posY c = nadd (posY b) (Num (cy + leadingGap (dom b)))
             \<and> blockMenuRect c = Some (nextId st)"
    and "cy' = cy + leadingGap (dom b) + trailingGap (dom b) + boxHeight (dom b) + gap"
    and "buttons st' = buttons st @ [Some (nextId st)]"
    and "listeners st' = listeners st" and "nextId st' = Suc (nextId st)"
    and "rect = nextId st"
proof -
  let ?f1 = "\<lambda>c. c\<lparr>isInFlyout := True,
                      commentText := (if CommentDefined env then None else commentText c)\<rparr>"
  let ?x = "if outputConnection b then 10 + hw_height (getHeightWidth b) / 2 else 10"
  let ?y = "if outputConnection b then cy
            else if \<not> previousConnection b \<and> nextConnection b then cy + 10
            else if \<not> previousConnection b \<and> \<not> nextConnection b then cy + 10
            else cy + 7"
  let ?f3 = "\<lambda>c. c\<lparr>blockMenuRect := Some (nextId st)\<rparr>"
  define st1 where "st1 = updBlock (bid b) ?f1 st"
  define st2 where "st2 = updBlock (bid b) (moveBy (Num ?x) (Num ?y)) st1"
  define st4 where "st4 = insertRect (nextId st) (st2\<lparr>nextId := Suc (nextId st)\<rparr>)"
  define st5 where "st5 = updBlock (bid b) ?f3 st4"
  have res: "layoutPlace env b gap i cy st =
      (cy + leadingGap (dom b) + trailingGap (dom b) + boxHeight (dom b) + gap, nextId st,
       st5\<lparr>buttons := arrayAssign (buttons st5) i (nextId st)\<rparr>)"
    by (simp add: layoutPlace_def Let_def createSvgRect_def st1_def st2_def st4_def st5_def
        updBlock_frame leadingGap_def trailingGap_def outputConnection_def
        previousConnection_def nextConnection_def getHeightWidth_def)
  have m1: "menuBlocks st1 = ds @ ?f1 b # ts" and d1: "distinct (map bid (menuBlocks st1))"
    unfolding st1_def by (rule menuBlocks_updBlock_at [OF m d]; simp)+
  have m2: "menuBlocks st2 = ds @ moveBy (Num ?x) (Num ?y) (?f1 b) # ts"
    and d2: "distinct (map bid (menuBlocks st2))"
    unfolding st2_def by (rule menuBlocks_updBlock_at [OF m1 d1]; simp add: moveBy_def)+
  have m4: "menuBlocks st4 = ds @ moveBy (Num ?x) (Num ?y) (?f1 b) # ts"
    and d4: "distinct (map bid (menuBlocks st4))"
    using m2 d2 by (simp_all add: st4_def menuBlocks_frame)
  have m5: "menuBlocks st5 = ds @ ?f3 (moveBy (Num ?x) (Num ?y) (?f1 b)) # ts"
    unfolding st5_def by (rule menuBlocks_updBlock_at [OF m4 d4]; simp add: moveBy_def)
  have st': "st' = st5\<lparr>buttons := arrayAssign (buttons st5) i (nextId st)\<rparr>"
    and cy': "cy' = cy + leadingGap (dom b) + trailingGap (dom b) + boxHeight (dom b) + gap"
    and rect: "rect = nextId st"
    using p unfolding res by auto
  have fr: "buttons st5 = buttons st" "listeners st5 = listeners st"
    "nextId st5 = Suc (nextId st)"
    by (simp_all add: st5_def st4_def st2_def st1_def updBlock_frame insertRect_def)
  show "\<exists>c. menuBlocks st' = ds @ c # ts \<and> bid c = bid b \<and> dom c = dom b
             \<and> posX c = nadd (posX b) (Num (if hasOutput (dom b) then 10 + boxHeight (dom b) / 2 else 10))
             \<and> posY c = nadd (posY b) (Num (cy + leadingGap (dom b)))
             \<and> blockMenuRect c = Some (nextId st)"
    by (rule exI [of _ "?f3 (moveBy (Num ?x) (Num ?y) (?f1 b))"])
       (simp add: st' menuBlocks_frame m5 moveBy_def leadingGap_def outputConnection_def
          previousConnection_def nextConnection_def getHeightWidth_def)
  show "cy' = cy + leadingGap (dom b) + trailingGap (dom b) + boxHeight (dom b) + gap"
    by (rule cy')
  show "buttons st' = buttons st @ [Some (nextId st)]"
    using i by (simp add: st' fr arrayAssign_def)
  show "listeners st' = listeners st" "nextId st' = Suc (nextId st)" "rect = nextId st"
    by (simp_all add: st' fr rect)
qed

lemma layoutBind_frame:
  assumes "layoutBind env b rect st = Returns st'"
  shows "blocks st' = blocks st" and "buttons st' = buttons st" and "nextId st \<le> nextId st'"
    and "\<exists>new. listeners st' = listeners st @ new \<and> (\<forall>l\<in>set new. nextId st \<le> handle l)
               \<and> length new = (if isAddable b then 2 else 1)"
  using assms
  by (auto simp: layoutBind_def bindRoot_def bindEvent_def Let_def
      split: option.splits if_splits)


lemma layoutStep_menu:
  assumes m: "menuBlocks st = ds @ b # ts" and d: "distinct (map bid (menuBlocks st))"
    and i: "length (buttons st) = i"
    and s: "layoutStep env b gap i cy st = Returns (cy', st')"
  shows "\<exists>c new. menuBlocks st' = ds @ c # ts \<and> bid c = bid b \<and> dom c = dom b
             \<and> posX c = nadd (posX b) (Num (if hasOutput (dom b) then 10 + boxHeight (dom b) / 2 else 10))
             \<and> posY c = nadd (posY b) (Num (cy + leadingGap (dom b)))
             \<and> blockMenuRect c \<noteq> None
             \<and> buttons st' = buttons st @ [blockMenuRect c]
             \<and> listeners st' = listeners st @ new \<and> (\<forall>l\<in>set new. nextId st \<le> handle l)
             \<and> length new = (if isAddable b then 2 else 1)"
    and "cy' = cy + leadingGap (dom b) + trailingGap (dom b) + boxHeight (dom b) + gap"
    and "nextId st \<le> nextId st'"
proof -
  obtain cy3 rect st6 where p: "layoutPlace env b gap i cy st = (cy3, rect, st6)"
    by (cases "layoutPlace env b gap i cy st") auto
  have bnd: "layoutBind env b rect st6 = Returns st'" and cy3: "cy' = cy3"
    using s by (simp_all add: layoutStep_def p split: outcome.splits)
  note pl = layoutPlace_menu [OF m d i p]
  note bf = layoutBind_frame [OF bnd]
  obtain c where c: "menuBlocks st6 = ds @ c # ts" "bid c = bid b" "dom c = dom b"
    "posX c = nadd (posX b) (Num (if hasOutput (dom b) then 10 + boxHeight (dom b) / 2 else 10))"
    "posY c = nadd (posY b) (Num (cy + leadingGap (dom b)))" "blockMenuRect c = Some (nextId st)"
    using pl(1) by blast
  obtain new where new: "listeners st' = listeners st6 @ new"
    "\<forall>l\<in>set new. nextId st6 \<le> handle l" "length new = (if isAddable b then 2 else 1)"
    using bf(4) by blast
  have mb: "menuBlocks st' = menuBlocks st6"
    by (simp add: getTopBlocks_def bf(1))
  have "menuBlocks st' = ds @ c # ts \<and> bid c = bid b \<and> dom c = dom b
       \<and> posX c = nadd (posX b) (Num (if hasOutput (dom b) then 10 + boxHeight (dom b) / 2 else 10))
       \<and> posY c = nadd (posY b) (Num (cy + leadingGap (dom b)))
       \<and> blockMenuRect c \<noteq> None
       \<and> buttons st' = buttons st @ [blockMenuRect c]
       \<and> listeners st' = listeners st @ new \<and> (\<forall>l\<in>set new. nextId st \<le> handle l)
       \<and> length new = (if isAddable b then 2 else 1)"
    using c new pl(3,4,5) bf(2) by (auto simp: mb)
  then show "\<exists>c new. menuBlocks st' = ds @ c # ts \<and> bid c = bid b \<and> dom c = dom b
             \<and> posX c = nadd (posX b) (Num (if hasOutput (dom b) then 10 + boxHeight (dom b) / 2 else 10))
             \<and> posY c = nadd (posY b) (Num (cy + leadingGap (dom b)))
             \<and> blockMenuRect c \<noteq> None
             \<and> buttons st' = buttons st @ [blockMenuRect c]
             \<and> listeners st' = listeners st @ new \<and> (\<forall>l\<in>set new. nextId st \<le> handle l)
             \<and> length new = (if isAddable b then 2 else 1)"
    by blast
  show "cy' = cy + leadingGap (dom b) + trailingGap (dom b) + boxHeight (dom b) + gap"
    using pl(2) cy3 by simp
  show "nextId st \<le> nextId st'"
    using pl(5) bf(3) by simp
qed

lemma layoutBlocks_menu:
  assumes "layoutBlocks env rest i cy st = Returns st'"
    and "menuBlocks st = ds @ map fst rest" and "distinct (map bid (menuBlocks st))"
    and "length (buttons st) = i"
  shows "\<exists>placed new. menuBlocks st' = ds @ placed
           \<and> map bid placed = map (bid \<circ> fst) rest \<and> map dom placed = map (dom \<circ> fst) rest
           \<and> buttons st' = buttons st @ map blockMenuRect placed
           \<and> (\<forall>c\<in>set placed. blockMenuRect c \<noteq> None)
           \<and> map posX placed
               = map (\<lambda>(b, g). nadd (posX b) (Num (if hasOutput (dom b) then 10 + boxHeight (dom b) / 2
                                                else 10))) rest
           \<and> map posY placed
               = map2 nadd (map (posY \<circ> fst) rest)
                   (map Num (cursors cy (map (\<lambda>(b, g). (dom b, g)) rest)))
           \<and> listeners st' = listeners st @ new \<and> (\<forall>l\<in>set new. nextId st \<le> handle l)
           \<and> length new = length (filter (isAddable \<circ> fst) rest) + length rest
           \<and> nextId st \<le> nextId st'"
  using assms
proof (induction rest arbitrary: i cy st ds)
  case Nil
  then show ?case by simp
next
  case (Cons bg rest)
  obtain b g where bg: "bg = (b, g)" by (cases bg)
  obtain cy1 st1 where s: "layoutStep env b g i cy st = Returns (cy1, st1)"
    and l: "layoutBlocks env rest (Suc i) cy1 st1 = Returns st'"
    using Cons.prems(1) by (auto simp: bg split: outcome.splits)
  have m: "menuBlocks st = ds @ b # map fst rest"
    using Cons.prems(2) by (simp add: bg)
  note st = layoutStep_menu [OF m Cons.prems(3,4) s]
  obtain c new1 where c: "menuBlocks st1 = ds @ c # map fst rest" "bid c = bid b"
    "dom c = dom b"
    "posX c = nadd (posX b) (Num (if hasOutput (dom b) then 10 + boxHeight (dom b) / 2 else 10))"
    "posY c = nadd (posY b) (Num (cy + leadingGap (dom b)))" "blockMenuRect c \<noteq> None"
    "buttons st1 = buttons st @ [blockMenuRect c]"
    "listeners st1 = listeners st @ new1" "\<forall>l\<in>set new1. nextId st \<le> handle l"
    "length new1 = (if isAddable b then 2 else 1)"
    using st(1) by blast
  have m1: "menuBlocks st1 = (ds @ [c]) @ map fst rest"
    by (simp add: c(1))
  have d1: "distinct (map bid (menuBlocks st1))"
    using Cons.prems(3) by (simp add: m c(1,2))
  have i1: "length (buttons st1) = Suc i"
    using Cons.prems(4) by (simp add: c(7))
  obtain placed new where ih: "menuBlocks st' = (ds @ [c]) @ placed"
    "map bid placed = map (bid \<circ> fst) rest" "map dom placed = map (dom \<circ> fst) rest"
    "buttons st' = buttons st1 @ map blockMenuRect placed"
    "\<forall>c\<in>set placed. blockMenuRect c \<noteq> None"
    "map posX placed
       = map (\<lambda>(b, g). nadd (posX b) (Num (if hasOutput (dom b) then 10 + boxHeight (dom b) / 2
                                        else 10))) rest"
    "map posY placed
       = map2 nadd (map (posY \<circ> fst) rest)
           (map Num (cursors cy1 (map (\<lambda>(b, g). (dom b, g)) rest)))"
    "listeners st' = listeners st1 @ new" "\<forall>l\<in>set new. nextId st1 \<le> handle l"
    "length new = length (filter (isAddable \<circ> fst) rest) + length rest"
    "nextId st1 \<le> nextId st'"
    using Cons.IH [OF l m1 d1 i1] by blast
  have n1: "\<forall>l\<in>set new. nextId st \<le> handle l"
    using ih(9) st(3) by auto
  show ?case
    apply (rule exI [of _ "c # placed"])
    apply (rule exI [of _ "new1 @ new"])
    using c ih(1-8) ih(10,11) n1 st(2,3)
    apply (auto simp: bg o_def)
    done
qed


lemma ball_map_eq:
  assumes "map f xs = map g ys" and "\<forall>y\<in>set ys. P (g y)"
  shows "\<forall>x\<in>set xs. P (f x)"
proof
  fix x assume "x \<in> set xs"
  then have "f x \<in> set (map f xs)" by simp
  then have "f x \<in> set (map g ys)" using assms(1) by simp
  then obtain y where "y \<in> set ys" "f x = g y" by auto
  then show "P (f x)" using assms(2) by simp
qed

lemma length_filter_map_eq:
  assumes "map f xs = map g ys"
  shows "length (filter (\<lambda>x. P (f x)) xs) = length (filter (\<lambda>y. P (g y)) ys)"
proof -
  have "length (filter (\<lambda>x. P (f x)) xs) = length (filter P (map f xs))"
    by (simp add: filter_map o_def)
  also have "\<dots> = length (filter P (map g ys))"
    by (simp add: assms)
  also have "\<dots> = length (filter (\<lambda>y. P (g y)) ys)"
    by (simp add: filter_map o_def)
  finally show ?thesis .
qed

lemma cursors_length: "length (cursors cy ts) = length ts"
  by (induction cy ts rule: cursors.induct) simp_all

lemma showLayout_created:
  assumes "(case xmlList of
              VariablesNameType \<Rightarrow> blockMenuCategory env (variablesCategory env) st1
            | ProceduresNameType \<Rightarrow> blockMenuCategory env (proceduresCategory env) st1
            | XmlNodes xs \<Rightarrow> createBlocks env 0 xs st1) = (bs, st2)"
    and "menuFresh st1"
  shows "menuBlocks st2 = menuBlocks st1 @ map fst bs \<and> menuFresh st2 \<and> nextId st1 \<le> nextId st2
       \<and> (\<forall>b\<in>set (map fst bs). nextId st1 \<le> bid b \<and> posX b = Num 0 \<and> posY b = Num 0)
       \<and> map (\<lambda>(b, g). (dom b, g)) bs = templatesOf env xmlList
       \<and> buttons st2 = buttons st1 \<and> listeners st2 = listeners st1"
proof (cases xmlList)
  case VariablesNameType
  then show ?thesis
    using blockMenuCategory_menu [of env "variablesCategory env" st1 bs st2] assms
    by (simp add: templatesOf_def)
next
  case ProceduresNameType
  then show ?thesis
    using blockMenuCategory_menu [of env "proceduresCategory env" st1 bs st2] assms
    by (simp add: templatesOf_def)
next
  case (XmlNodes xs)
  then show ?thesis
    using createBlocks_menu [of env 0 xs st1 bs st2] assms
    by (simp add: templatesOf_def)
qed

lemma showLayout_menu:
  assumes "showLayout env xmlList st = Returns st'"
  shows "map dom (menuBlocks st') = map fst (templatesOf env xmlList)"
    and "\<forall>c\<in>set (menuBlocks st'). blockMenuRect c \<noteq> None \<and> nextId st \<le> bid c"
    and "buttons st' = map blockMenuRect (menuBlocks st')"
    and "map posX (menuBlocks st')
           = map (\<lambda>(x, g). Num (if hasOutput x then 10 + boxHeight x / 2 else 10))
               (templatesOf env xmlList)"
    and "map posY (menuBlocks st') = map Num (cursors 10 (templatesOf env xmlList))"
    and "\<forall>l\<in>set (listeners st'). nextId st \<le> handle l"
    and "length (listeners st')
           = length (filter isAddable (menuBlocks st')) + length (menuBlocks st')"
    and "distinct (map bid (menuBlocks st'))"
proof -
  let ?st1 = "(hide st)\<lparr>display := ''block''\<rparr>"
  obtain bs st2 where cr: "(case xmlList of
              VariablesNameType \<Rightarrow> blockMenuCategory env (variablesCategory env) ?st1
            | ProceduresNameType \<Rightarrow> blockMenuCategory env (proceduresCategory env) ?st1
            | XmlNodes xs \<Rightarrow> createBlocks env 0 xs ?st1) = (bs, st2)"
    by (cases "(case xmlList of
              VariablesNameType \<Rightarrow> blockMenuCategory env (variablesCategory env) ?st1
            | ProceduresNameType \<Rightarrow> blockMenuCategory env (proceduresCategory env) ?st1
            | XmlNodes xs \<Rightarrow> createBlocks env 0 xs ?st1)")
  have l: "layoutBlocks env bs 0 10 st2 = Returns st'"
    using assms cr by (simp add: showLayout_def Let_def)
  have h: "menuBlocks ?st1 = []" "buttons ?st1 = []" "listeners ?st1 = []"
    "nextId ?st1 = nextId st"
    by (simp_all add: menuBlocks_frame hide_menuBlocks hide_frame)
  have f1: "menuFresh ?st1"
    by (simp add: menuFresh_def h(1))
  note c = showLayout_created [OF cr f1]
  have m2: "menuBlocks st2 = [] @ map fst bs" and d2: "distinct (map bid (menuBlocks st2))"
    and b2: "length (buttons st2) = 0"
    using c h by (auto simp: menuFresh_def)
  obtain placed new where p: "menuBlocks st' = [] @ placed"
    "map bid placed = map (bid \<circ> fst) bs" "map dom placed = map (dom \<circ> fst) bs"
    "buttons st' = buttons st2 @ map blockMenuRect placed"
    "\<forall>c\<in>set placed. blockMenuRect c \<noteq> None"
    "map posX placed
       = map (\<lambda>(b, g). nadd (posX b) (Num (if hasOutput (dom b) then 10 + boxHeight (dom b) / 2
                                        else 10))) bs"
    "map posY placed
       = map2 nadd (map (posY \<circ> fst) bs)
           (map Num (cursors 10 (map (\<lambda>(b, g). (dom b, g)) bs)))"
    "listeners st' = listeners st2 @ new" "\<forall>l\<in>set new. nextId st2 \<le> handle l"
    "length new = length (filter (isAddable \<circ> fst) bs) + length bs"
    using layoutBlocks_menu [OF l m2 d2 b2] by blast
  have t: "map (\<lambda>(b, g). (dom b, g)) bs = templatesOf env xmlList"
    using c by simp
  have z: "\<forall>b\<in>set bs. posX (fst b) = Num 0 \<and> posY (fst b) = Num 0
             \<and> nextId st \<le> bid (fst b)"
    using c h(4) by simp
  have n: "nextId st \<le> nextId st2" "buttons st2 = []" "listeners st2 = []"
    using c h by simp_all
  show "map dom (menuBlocks st') = map fst (templatesOf env xmlList)"
    by (simp add: p(1,3) t [symmetric] o_def split_def)
  show "\<forall>c\<in>set (menuBlocks st'). blockMenuRect c \<noteq> None \<and> nextId st \<le> bid c"
    using p(5) ball_map_eq [OF p(2), of "\<lambda>i. nextId st \<le> i"] z by (simp add: p(1))
  show "buttons st' = map blockMenuRect (menuBlocks st')"
    by (simp add: p(1,4) n)
  show "map posX (menuBlocks st')
          = map (\<lambda>(x, g). Num (if hasOutput x then 10 + boxHeight x / 2 else 10))
              (templatesOf env xmlList)"
    using z by (simp add: p(1,6) t [symmetric] o_def split_def)
  have len: "length (map (posY \<circ> fst) bs) = length (cursors 10 (templatesOf env xmlList))"
    by (simp add: cursors_length t [symmetric])
  have zero: "\<forall>y\<in>set (map (posY \<circ> fst) bs). y = Num 0"
    using z by simp
  show "map posY (menuBlocks st') = map Num (cursors 10 (templatesOf env xmlList))"
    using map2_nadd_zero [OF zero len] by (simp add: p(1,7) t)
  have "map bid (menuBlocks st') = map bid (menuBlocks st2)"
    by (simp add: p(1,2) m2)
  then show "distinct (map bid (menuBlocks st'))"
    using d2 by simp
  show "\<forall>l\<in>set (listeners st'). nextId st \<le> handle l"
    using p(9) n(1) by (auto simp: p(8) n(3))
  have "length (filter (isAddable \<circ> fst) bs) = length (filter isAddable placed)"
    using length_filter_map_eq [OF p(3), of addable] by (simp add: isAddable_def [abs_def] o_def)
  moreover have "length placed = length bs"
    using p(2) by (metis length_map)
  ultimately show "length (listeners st')
          = length (filter isAddable (menuBlocks st')) + length (menuBlocks st')"
    by (simp add: p(1,8,10) n(3))
qed

lemma reflow_menu:
  "map bid (menuBlocks (reflow env st)) = map bid (menuBlocks st)"
  "map dom (menuBlocks (reflow env st)) = map dom (menuBlocks st)"
  "map blockMenuRect (menuBlocks (reflow env st)) = map blockMenuRect (menuBlocks st)"
  "buttons (reflow env st) = buttons st" "listeners (reflow env st) = listeners st"
  "nextId (reflow env st) = nextId st"
  "map posY (menuBlocks (reflow env st)) = map posY (menuBlocks st)"
proof -
  have "\<not> looseNotEqual (width st) (computeWidth env st)
      \<or> looseNotEqual (width st) (computeWidth env st)"
    by simp
  then have "map bid (menuBlocks (reflow env st)) = map bid (menuBlocks st)
      \<and> map dom (menuBlocks (reflow env st)) = map dom (menuBlocks st)
      \<and> map blockMenuRect (menuBlocks (reflow env st)) = map blockMenuRect (menuBlocks st)
      \<and> buttons (reflow env st) = buttons st \<and> listeners (reflow env st) = listeners st
      \<and> nextId (reflow env st) = nextId st
      \<and> map posY (menuBlocks (reflow env st)) = map posY (menuBlocks st)"
  proof
    assume "\<not> looseNotEqual (width st) (computeWidth env st)"
    then show ?thesis by (simp add: reflow_unchanged)
  next
    assume w: "looseNotEqual (width st) (computeWidth env st)"
    show ?thesis
      by (simp add: reflow_changed [OF w] getTopBlocks_def fold_reflowBlock_blocks filter_map
          o_def fold_move_workspace fold_move_fields fold_reflowBlock_frame)
  qed
  then show "map bid (menuBlocks (reflow env st)) = map bid (menuBlocks st)"
    "map dom (menuBlocks (reflow env st)) = map dom (menuBlocks st)"
    "map blockMenuRect (menuBlocks (reflow env st)) = map blockMenuRect (menuBlocks st)"
    "buttons (reflow env st) = buttons st" "listeners (reflow env st) = listeners st"
    "nextId (reflow env st) = nextId st"
    "map posY (menuBlocks (reflow env st)) = map posY (menuBlocks st)"
    by simp_all
qed

text \<open>Left to right, \<^verbatim>\<open>reflow\<close> moves no block.\<close>

lemma reflow_menu_ltr:
  assumes "\<not> RTL env"
  shows "menuBlocks (reflow env st) = menuBlocks st"
proof (cases "looseNotEqual (width st) (computeWidth env st)")
  case False
  then show ?thesis by (simp add: reflow_unchanged)
next
  case True
  show ?thesis
    using assms
    by (simp add: reflow_changed [OF True] getTopBlocks_def fold_reflowBlock_blocks fold_skip)
qed

lemma show_menu_after:
  assumes "show_menu env xmlList st = Returns st'"
  shows "\<exists>st3. showLayout env xmlList st = Returns st3
           \<and> menuBlocks st' = menuBlocks (reflow env (st3\<lparr>width := Some (Num 0)\<rparr>))
           \<and> buttons st' = buttons st3 \<and> listeners st' = listeners st3"
proof (cases "showLayout env xmlList st")
  case (Throws f s)
  then show ?thesis using assms by (simp add: show_menu_def)
next
  case (Returns st3)
  let ?r = "reflow env (st3\<lparr>width := Some (Num 0)\<rparr>)"
  have "st' = (snd (bindEvent Canvas ''blocklyWorkspaceChange'' Reflow
                      (?r\<lparr>resizeEvents := Suc (resizeEvents ?r)\<rparr>)))
                \<lparr>reflowWrapper := Some (fst (bindEvent Canvas ''blocklyWorkspaceChange'' Reflow
                      (?r\<lparr>resizeEvents := Suc (resizeEvents ?r)\<rparr>))),
                 changeEvents := Suc (changeEvents ?r)\<rparr>"
    using assms by (simp add: show_menu_def Returns Let_def split_def bindEvent_def)
  then have "menuBlocks st' = menuBlocks ?r" "buttons st' = buttons ?r"
    "listeners st' = listeners ?r"
    by (simp_all add: getTopBlocks_def bindEvent_def Let_def)
  then show ?thesis
    by (simp add: Returns reflow_menu)
qed

lemma show_menu_props:
  assumes "show_menu env xmlList st = Returns st'"
  shows "buttons st' = map blockMenuRect (getTopBlocks MenuWorkspace st')
       \<and> (\<forall>b\<in>set (getTopBlocks MenuWorkspace st'). blockMenuRect b \<noteq> None \<and> nextId st \<le> bid b)
       \<and> (\<forall>l\<in>set (listeners st'). nextId st \<le> handle l)
       \<and> length (listeners st')
           = length (filter isAddable (getTopBlocks MenuWorkspace st'))
             + length (getTopBlocks MenuWorkspace st')"
proof -
  obtain st3 where l: "showLayout env xmlList st = Returns st3"
    and m: "menuBlocks st' = menuBlocks (reflow env (st3\<lparr>width := Some (Num 0)\<rparr>))"
    and f: "buttons st' = buttons st3" "listeners st' = listeners st3"
    using show_menu_after [OF assms] by blast
  note s = showLayout_menu [OF l]
  let ?r = "reflow env (st3\<lparr>width := Some (Num 0)\<rparr>)"
  have e: "map bid (menuBlocks st') = map bid (menuBlocks st3)"
    "map dom (menuBlocks st') = map dom (menuBlocks st3)"
    "map blockMenuRect (menuBlocks st') = map blockMenuRect (menuBlocks st3)"
    by (simp_all add: m reflow_menu menuBlocks_frame)
  have 1: "buttons st' = map blockMenuRect (menuBlocks st')"
    by (simp add: f s(3) e)
  have 2: "\<forall>b\<in>set (menuBlocks st'). blockMenuRect b \<noteq> None"
    using ball_map_eq [OF e(3), of "\<lambda>r. r \<noteq> None"] s(2) by simp
  have 3: "\<forall>b\<in>set (menuBlocks st'). nextId st \<le> bid b"
    using ball_map_eq [OF e(1), of "\<lambda>i. nextId st \<le> i"] s(2) by simp
  have 4: "\<forall>l\<in>set (listeners st'). nextId st \<le> handle l"
    using s(6) by (simp add: f)
  have "length (filter isAddable (menuBlocks st')) = length (filter isAddable (menuBlocks st3))"
    using length_filter_map_eq [OF e(2), of addable] by (simp add: isAddable_def [abs_def])
  moreover have "length (menuBlocks st') = length (menuBlocks st3)"
    using e(1) by (metis length_map)
  ultimately have 5: "length (listeners st')
      = length (filter isAddable (menuBlocks st')) + length (menuBlocks st')"
    by (simp add: f s(7))
  show ?thesis using 1 2 3 4 5 by simp
qed



lemmas show_defs = show_menu_def showLayout_def hide_def layoutStep_def layoutPlace_def
  layoutBind_def reflow_def reflowBlock_def computeWidth_def

lemma returned_stateOf: "returned out \<Longrightarrow> out = Returns (stateOf out)"
  by (cases out) simp_all

lemma layoutBind_returns: "svgRoot b \<noteq> None \<Longrightarrow> returned (layoutBind env b rect st)"
  by (auto simp: layoutBind_def bindRoot_def bindEvent_def Let_def split: option.splits)

lemma layoutStep_returns: "svgRoot b \<noteq> None \<Longrightarrow> returned (layoutStep env b gap i cy st)"
proof -
  assume r: "svgRoot b \<noteq> None"
  obtain cy3 rect st6 where p: "layoutPlace env b gap i cy st = (cy3, rect, st6)"
    by (cases "layoutPlace env b gap i cy st") auto
  show ?thesis
    using layoutBind_returns [OF r, of env rect st6]
    by (cases "layoutBind env b rect st6") (simp_all add: layoutStep_def p)
qed

lemma layoutBlocks_returns:
  "\<forall>b\<in>set (map fst rest). svgRoot b \<noteq> None \<Longrightarrow> returned (layoutBlocks env rest i cy st)"
proof (induction rest arbitrary: i cy st)
  case Nil
  show ?case by simp
next
  case (Cons bg rest)
  obtain b g where bg: "bg = (b, g)" by (cases bg)
  have r: "svgRoot b \<noteq> None" using Cons.prems by (simp add: bg)
  have rs: "\<forall>b\<in>set (map fst rest). svgRoot b \<noteq> None" using Cons.prems by simp
  show ?case
    using layoutStep_returns [OF r, of env g i cy st] Cons.IH [OF rs]
    by (cases "layoutStep env b g i cy st") (auto simp: bg)
qed

lemma createBlocks_rendered:
  assumes "rendered env MenuWorkspace" and "createBlocks env margin xs st = (bs, st')"
  shows "\<forall>b\<in>set (map fst bs). svgRoot b \<noteq> None"
  using assms(2)
proof (induction xs arbitrary: st bs st')
  case Nil
  then show ?case by simp
next
  case (Cons x xs)
  show ?case
  proof (cases "isBlockNode x")
    case False
    then show ?thesis using Cons by simp
  next
    case True
    obtain b st1 where d: "domToBlock env MenuWorkspace x st = (b, st1)"
      by (cases "domToBlock env MenuWorkspace x st")
    let ?st2 = "updBlock (bid b) (\<lambda>c. c\<lparr>isInFlyout := True, isInBlockMenu := True\<rparr>) st1"
    obtain rest st3 where r: "createBlocks env margin xs ?st2 = (rest, st3)"
      by (cases "createBlocks env margin xs ?st2")
    have bs: "bs = (b\<lparr>isInFlyout := True, isInBlockMenu := True\<rparr>, margin) # rest"
      using Cons.prems True d r by simp
    have "svgRoot b \<noteq> None"
      using d assms(1) by (auto simp: domToBlock_def Let_def)
    then show ?thesis
      using Cons.IH [OF r] by (simp add: bs)
  qed
qed

lemma blockMenuCategory_rendered:
  assumes "rendered env MenuWorkspace" and "blockMenuCategory env ts st = (bs, st')"
  shows "\<forall>b\<in>set (map fst bs). svgRoot b \<noteq> None"
  using assms(2)
proof (induction ts arbitrary: st bs st')
  case Nil
  then show ?case by simp
next
  case (Cons t ts)
  obtain x g where t: "t = (x, g)" by (cases t)
  obtain b st1 where d: "domToBlock env MenuWorkspace x st = (b, st1)"
    by (cases "domToBlock env MenuWorkspace x st")
  obtain rest st2 where r: "blockMenuCategory env ts st1 = (rest, st2)"
    by (cases "blockMenuCategory env ts st1")
  have bs: "bs = (b, g) # rest"
    using Cons.prems t d r by simp
  have "svgRoot b \<noteq> None"
    using d assms(1) by (auto simp: domToBlock_def Let_def)
  then show ?case
    using Cons.IH [OF r] by (simp add: bs)
qed

lemma showLayout_returns:
  assumes "rendered env MenuWorkspace"
  shows "returned (showLayout env xmlList st)"
proof -
  let ?st1 = "(hide st)\<lparr>display := ''block''\<rparr>"
  let ?c = "case xmlList of
              VariablesNameType \<Rightarrow> blockMenuCategory env (variablesCategory env) ?st1
            | ProceduresNameType \<Rightarrow> blockMenuCategory env (proceduresCategory env) ?st1
            | XmlNodes xs \<Rightarrow> createBlocks env 0 xs ?st1"
  obtain bs st2 where cr: "?c = (bs, st2)"
    by (cases ?c)
  have "\<forall>b\<in>set (map fst bs). svgRoot b \<noteq> None"
    using cr createBlocks_rendered [OF assms, of 0 _ ?st1 bs st2]
      blockMenuCategory_rendered [OF assms, of _ ?st1 bs st2]
    by (cases xmlList) simp_all
  then have "returned (layoutBlocks env bs 0 10 st2)"
    by (rule layoutBlocks_returns)
  then show ?thesis
    using cr by (simp add: showLayout_def Let_def)
qed

lemma show_menu_returns:
  assumes "rendered env MenuWorkspace"
  shows "returned (show_menu env xmlList st)"
  using showLayout_returns [OF assms, of xmlList st]
  by (cases "showLayout env xmlList st") (simp_all add: show_menu_def Let_def split_def)

lemma leadingGap_nonneg: "0 \<le> leadingGap x"
  by (simp add: leadingGap_def)

lemma trailingGap_nonneg: "0 \<le> trailingGap x"
  by (simp add: trailingGap_def)

lemma cursors_first: "ts \<noteq> [] \<Longrightarrow> cursors cy ts ! 0 = cy + leadingGap (fst (ts ! 0))"
  by (cases ts) auto

lemma cursors_next:
  "Suc k < length ts \<Longrightarrow>
     cursors cy ts ! Suc k =
       cursors cy ts ! k + trailingGap (fst (ts ! k)) + boxHeight (fst (ts ! k)) + snd (ts ! k)
         + leadingGap (fst (ts ! Suc k))"
proof (induction cy ts arbitrary: k rule: cursors.induct)
  case (1 cy)
  then show ?case by simp
next
  case (2 cy x g xs)
  show ?case
  proof (cases k)
    case 0
    then have "xs \<noteq> []" using "2.prems" by auto
    then show ?thesis using 0 by (simp add: cursors_first)
  next
    case (Suc j)
    then have "Suc j < length xs" using "2.prems" by simp
    then show ?thesis using "2.IH" [of j] Suc by simp
  qed
qed

lemma cursors_increasing:
  "\<forall>t\<in>set ts. 0 < boxHeight (fst t) + snd t \<Longrightarrow>
     sorted_wrt (<) (cursors cy ts) \<and> (\<forall>y\<in>set (cursors cy ts). cy \<le> y)"
proof (induction cy ts rule: cursors.induct)
  case (1 cy)
  show ?case by simp
next
  case (2 cy x g xs)
  let ?cy = "cy + leadingGap x + trailingGap x + boxHeight x + g"
  have ih: "sorted_wrt (<) (cursors ?cy xs)" "\<forall>y\<in>set (cursors ?cy xs). ?cy \<le> y"
    using 2 by simp_all
  have "cy + leadingGap x < ?cy" "cy \<le> cy + leadingGap x"
    using "2.prems" trailingGap_nonneg [of x] leadingGap_nonneg [of x] by simp_all
  then show ?case
    using ih by fastforce
qed


lemma show_menu_layout:
  assumes "show_menu env xmlList st = Returns st'"
  shows "map dom (menuBlocks st') = map fst (templatesOf env xmlList)"
    and "map posY (menuBlocks st') = map Num (cursors 10 (templatesOf env xmlList))"
    and "\<not> RTL env \<Longrightarrow>
         map posX (menuBlocks st')
           = map (\<lambda>(x, g). Num (if hasOutput x then 10 + boxHeight x / 2 else 10))
               (templatesOf env xmlList)"
    and "distinct (map bid (menuBlocks st'))"
proof -
  obtain st3 where l: "showLayout env xmlList st = Returns st3"
    and m: "menuBlocks st' = menuBlocks (reflow env (st3\<lparr>width := Some (Num 0)\<rparr>))"
    using show_menu_after [OF assms] by blast
  note s = showLayout_menu [OF l]
  show "map dom (menuBlocks st') = map fst (templatesOf env xmlList)"
    by (simp add: m reflow_menu menuBlocks_frame s(1))
  show "map posY (menuBlocks st') = map Num (cursors 10 (templatesOf env xmlList))"
    by (simp add: m reflow_menu menuBlocks_frame s(5))
  show "distinct (map bid (menuBlocks st'))"
    by (simp add: m reflow_menu menuBlocks_frame s(8))
  show "map posX (menuBlocks st')
          = map (\<lambda>(x, g). Num (if hasOutput x then 10 + boxHeight x / 2 else 10))
              (templatesOf env xmlList)" if "\<not> RTL env"
    by (simp add: m reflow_menu_ltr [OF that] menuBlocks_frame s(4))
qed

lemma show_menu_positions_props:
  assumes "show_menu env xmlList st = Returns st'"
  shows "let B = getTopBlocks MenuWorkspace st'; T = templatesOf env xmlList
         in map dom B = map fst T
          \<and> (\<not> RTL env \<longrightarrow>
               (\<forall>k<length B. posX (B ! k) =
                  Num (if outputConnection (B ! k)
                       then 10 + hw_height (getHeightWidth (B ! k)) / 2 else 10)))
          \<and> (\<exists>Y. map posY B = map Num Y
               \<and> (B \<noteq> [] \<longrightarrow> Y ! 0 = 10 + leadingGap (dom (B ! 0)))
               \<and> (\<forall>k. Suc k < length B \<longrightarrow>
                      Y ! Suc k =
                        Y ! k + trailingGap (dom (B ! k)) + hw_height (getHeightWidth (B ! k))
                          + snd (T ! k) + leadingGap (dom (B ! Suc k)))
               \<and> ((\<forall>k<length B. 0 < hw_height (getHeightWidth (B ! k)) + snd (T ! k)) \<longrightarrow>
                      sorted_wrt (<) Y))"
proof -
  let ?B = "getTopBlocks MenuWorkspace st'" and ?T = "templatesOf env xmlList"
  let ?Y = "cursors 10 ?T"
  note s = show_menu_layout [OF assms]
  have len: "length ?B = length ?T"
    using s(1) by (metis length_map)
  have dk: "dom (?B ! k) = fst (?T ! k)" if "k < length ?B" for k
  proof -
    have "map dom ?B ! k = map fst ?T ! k" by (simp add: s(1))
    then show ?thesis using that len by simp
  qed
  have xk: "posX (?B ! k) = Num (if hasOutput (fst (?T ! k)) then 10 + boxHeight (fst (?T ! k)) / 2
                                 else 10)" if "k < length ?B" and "\<not> RTL env" for k
  proof -
    have "map posX ?B ! k
        = map (\<lambda>(x, g). Num (if hasOutput x then 10 + boxHeight x / 2 else 10)) ?T ! k"
      by (simp add: s(3) [OF that(2)])
    then show ?thesis using that(1) len by (simp add: split_def)
  qed
  have 2: "\<not> RTL env \<longrightarrow> (\<forall>k<length ?B. posX (?B ! k) =
      Num (if outputConnection (?B ! k) then 10 + hw_height (getHeightWidth (?B ! k)) / 2
           else 10))"
    by (simp add: xk dk outputConnection_def getHeightWidth_def)
  have 3: "?B \<noteq> [] \<longrightarrow> ?Y ! 0 = 10 + leadingGap (dom (?B ! 0))"
  proof
    assume ne: "?B \<noteq> []"
    then have "?T \<noteq> []" "0 < length ?B" using len by auto
    then show "?Y ! 0 = 10 + leadingGap (dom (?B ! 0))"
      by (simp add: dk cursors_first)
  qed
  have 4: "\<forall>k. Suc k < length ?B \<longrightarrow>
      ?Y ! Suc k =
        ?Y ! k + trailingGap (dom (?B ! k)) + hw_height (getHeightWidth (?B ! k))
          + snd (?T ! k) + leadingGap (dom (?B ! Suc k))"
  proof (intro allI impI)
    fix k assume k: "Suc k < length ?B"
    then have "k < length ?B" "Suc k < length ?T" using len by simp_all
    then show "?Y ! Suc k =
        ?Y ! k + trailingGap (dom (?B ! k)) + hw_height (getHeightWidth (?B ! k))
          + snd (?T ! k) + leadingGap (dom (?B ! Suc k))"
      using k by (simp add: dk cursors_next getHeightWidth_def)
  qed
  have 5: "(\<forall>k<length ?B. 0 < hw_height (getHeightWidth (?B ! k)) + snd (?T ! k)) \<longrightarrow>
      sorted_wrt (<) ?Y"
  proof
    assume h: "\<forall>k<length ?B. 0 < hw_height (getHeightWidth (?B ! k)) + snd (?T ! k)"
    have "\<forall>t\<in>set ?T. 0 < boxHeight (fst t) + snd t"
    proof
      fix t assume "t \<in> set ?T"
      then obtain k where k: "k < length ?T" "t = ?T ! k"
        by (auto simp: in_set_conv_nth)
      then show "0 < boxHeight (fst t) + snd t"
        using h len by (simp add: dk getHeightWidth_def)
    qed
    then show "sorted_wrt (<) ?Y"
      using cursors_increasing [of ?T 10] by simp
  qed
  have "\<exists>Y. map posY ?B = map Num Y
      \<and> (?B \<noteq> [] \<longrightarrow> Y ! 0 = 10 + leadingGap (dom (?B ! 0)))
      \<and> (\<forall>k. Suc k < length ?B \<longrightarrow>
             Y ! Suc k =
               Y ! k + trailingGap (dom (?B ! k)) + hw_height (getHeightWidth (?B ! k))
                 + snd (?T ! k) + leadingGap (dom (?B ! Suc k)))
      \<and> ((\<forall>k<length ?B. 0 < hw_height (getHeightWidth (?B ! k)) + snd (?T ! k)) \<longrightarrow>
             sorted_wrt (<) Y)"
    using s(2) 3 4 5 by blast
  then show ?thesis
    unfolding Let_def using s(1) 2 by blast
qed

subsection \<open>A first run\<close>

lemma show_menu_stack: "show_menu env0 (XmlNodes [xStack]) BlockMenu_new = Returns shownStack"
  by (simp add: show_menu_def showLayout_def hide_def layoutStep_def layoutPlace_def layoutBind_def reflow_def
      reflowBlock_def computeWidth_def input_defs prim_defs Let_def)

subsection \<open>The guards of the creation handler\<close>

text \<open>
  Claim C10. For every invocation of the block-creation handler, if the triggering event
  is a right-button click or the origin block is disabled, the handler returns at once:
  it creates no block and leaves the whole state (menu, workspaces, listeners, static
  fields) as it was.
\<close>

theorem createBlockFunc_guard:
  "isRightButton env e \<or> disabled originBlock
   \<Longrightarrow> createBlockFunc env originBlock e st = Returns st"
  by (auto simp: createBlockFunc_def)

text \<open>
  Both guards at work on the menu that shows one block: a click with button 2 on the
  enabled block, and a click with button 0 on the same block once disabled.
\<close>

theorem createBlockFunc_guard_witness:
  "isRightButton env0 (mouseEvent ''mousedown'' 40 30 2)
   \<and> createBlockFunc env0 stackBlock (mouseEvent ''mousedown'' 40 30 2) shownStack
       = Returns shownStack
   \<and> disabled (stackBlock\<lparr>dom := xStack\<lparr>isDisabled := True\<rparr>\<rparr>)
   \<and> createBlockFunc env0 (stackBlock\<lparr>dom := xStack\<lparr>isDisabled := True\<rparr>\<rparr>)
        (mouseEvent ''mousedown'' 40 30 0) shownStack = Returns shownStack"
proof -
  have r: "isRightButton env0 (mouseEvent ''mousedown'' 40 30 2)"
    by (simp add: env0_def mouseEvent_def)
  have d: "disabled (stackBlock\<lparr>dom := xStack\<lparr>isDisabled := True\<rparr>\<rparr>)"
    by (simp add: disabled_def)
  show ?thesis
    using r d
      createBlockFunc_guard [of env0 "mouseEvent ''mousedown'' 40 30 2" stackBlock shownStack]
      createBlockFunc_guard [of env0 "mouseEvent ''mousedown'' 40 30 0"
        "stackBlock\<lparr>dom := xStack\<lparr>isDisabled := True\<rparr>\<rparr>" shownStack]
    by simp
qed

subsection \<open>Scrolling\<close>

text \<open>
  Claim C8. Whenever \<^verbatim>\<open>setMetrics_\<close> is called with a ratio whose \<^verbatim>\<open>y\<close> is a number
  \<open>r\<close>, the menu workspace's \<open>scrollY\<close> becomes \<open>- contentHeight * r - contentTop\<close>,
  with \<open>contentHeight\<close> and \<open>contentTop\<close> from the current metrics, and the canvas is
  translated vertically to that \<open>scrollY\<close> plus \<open>absoluteTop\<close>; nothing else changes.
\<close>

theorem setMetrics_tracks_ratio:
  "\<exists>m. getMetrics env st = Some m
     \<and> setMetrics env (Some r) st =
         st\<lparr>scrollY := - contentHeight m * r - contentTop m,
            canvasTransform := Some (- contentHeight m * r - contentTop m + absoluteTop m)\<rparr>"
  by (simp add: getMetrics_def setMetrics_def Let_def algebra_simps)

text \<open>With a canvas box of height 300 at y 10, the ratio 1/2 scrolls to -155.\<close>

theorem setMetrics_tracks_ratio_witness:
  "scrollY (setMetrics env0 (Some (1/2)) shownStack) = - 155
   \<and> canvasTransform (setMetrics env0 (Some (1/2)) shownStack) = Some (- 155)"
  using setMetrics_tracks_ratio [of env0 shownStack "1/2"]
  by (auto simp: getMetrics_def env0_def)

subsection \<open>Ending a pending drag\<close>

text \<open>
  Claim C3. If the drag threshold is never exceeded, a pointer-up after a pointer-down
  on a menu block should create no block, unbind the document-level \<^verbatim>\<open>mouseup\<close> and
  \<^verbatim>\<open>mousemove\<close> listeners and clear every static field recorded at pointer-down.
  On the menu that shows one block, a left pointer-down at (40, 30), a move to (43, 34)
  (distance 5, not beyond the radius 5) and the pointer-up: the move changes nothing, and
  after the pointer-up the two listeners are unbound and the start event and start block
  are cleared, but \<open>startblockMenu\<close> still holds the menu. \<^verbatim>\<open>terminateDrag_\<close> clears
  \<^verbatim>\<open>startFlyout_\<close>, a field nothing ever sets, where pointer-down recorded
  \<^verbatim>\<open>startblockMenu_\<close>.
\<close>

theorem terminateDrag_keeps_startblockMenu:
  "onMouseMove env0 (mouseEvent ''mousemove'' 43 34 0)
       (blockMouseDown env0 stackBlock (mouseEvent ''mousedown'' 40 30 0) shownStack)
     = Returns (blockMouseDown env0 stackBlock (mouseEvent ''mousedown'' 40 30 0) shownStack)
   \<and> BlockMenu_terminateDrag
       (blockMouseDown env0 stackBlock (mouseEvent ''mousedown'' 40 30 0) shownStack)
     = shownStack\<lparr>nextId := 9, cursorHand := True, startblockMenu := Some ThisBlockMenu\<rparr>"
  apply (rule conjI)
   apply (simp add: onMouseMove_def rogueMove_def blockMouseDown_def Blockly_terminateDrag_def
      BlockMenu_terminateDrag_def input_defs prim_defs Let_def real_le_lsqrt not_less)
  apply (simp add: onMouseMove_def blockMouseDown_def Blockly_terminateDrag_def
      BlockMenu_terminateDrag_def input_defs prim_defs Let_def)
  done

subsection \<open>hide\<close>

text \<open>
  Claim C1. After \<^verbatim>\<open>hide\<close> every listener that \<^verbatim>\<open>show\<close> registered should be detached,
  the Entry-specific \<^verbatim>\<open>mousedown\<close> handlers included. With Entry present, \<^verbatim>\<open>show\<close> of
  one \<^verbatim>\<open>make_variable\<close> block followed by \<^verbatim>\<open>hide\<close> empties \<open>listeners\<close> and
  \<open>buttons\<close>, but the handler that creates a variable is still bound on the root of the
  block: \<^verbatim>\<open>show\<close> binds it without pushing the binding to \<^verbatim>\<open>listeners_\<close>, the array
  that \<^verbatim>\<open>hide\<close> unbinds.
\<close>

theorem hide_leaves_entry_listener:
  "returned (show_menu env0 (XmlNodes [xMakeVariable]) BlockMenu_new)
   \<and> bound (hide (stateOf (show_menu env0 (XmlNodes [xMakeVariable]) BlockMenu_new)))
       = [\<lparr>handle = 0, target = Window, evname = ''resize'', func = SyncViewSize\<rparr>,
          \<lparr>handle = 4, target = Node 2, evname = ''mousedown'', func = EntryCreateVariable\<rparr>]
   \<and> listeners (hide (stateOf (show_menu env0 (XmlNodes [xMakeVariable]) BlockMenu_new))) = []
   \<and> buttons (hide (stateOf (show_menu env0 (XmlNodes [xMakeVariable]) BlockMenu_new))) = []"
  by (simp add: show_menu_def showLayout_def hide_def layoutStep_def layoutPlace_def layoutBind_def reflow_def
      reflowBlock_def computeWidth_def input_defs prim_defs Let_def)

subsection \<open>The drag threshold\<close>

lemma sqrt_exceeds_iff:
  fixes R :: real
  assumes "0 \<le> R"
  shows "(R < sqrt x) = (R ^ 2 < x)"
proof -
  have "sqrt (R ^ 2) = R" using assms by simp
  then show ?thesis using real_sqrt_less_iff [of "R ^ 2" x] by simp
qed

lemma map_workspace_upd:
  assumes "\<And>c. workspace (f c) = workspace c"
  shows "map workspace (map (\<lambda>c. if bid c = i then f c else c) xs) = map workspace xs"
  by (induction xs) (simp_all add: assms)

lemma length_getTopBlocks:
  "length (getTopBlocks ws st) = length (filter (\<lambda>w. w = ws) (map workspace (blocks st)))"
  by (simp add: getTopBlocks_def filter_map o_def)

lemmas step_defs = disabled_def blockToDom_def updBlock_def moveBy_def domToBlock_def getSvgXY_def

text \<open>
  What the creation handler adds when nothing stops it: a block in the menu's workspace
  and a block in the main workspace, and a pointer-down on the first.
\<close>

lemma createBlockFunc_main:
  assumes "\<not> isRightButton env e" and "\<not> disabled b" and "svgRoot b \<noteq> None"
    and "rendered env MenuWorkspace" and "rendered env MainWorkspace"
  shows "returned (createBlockFunc env b e st)"
    and "map workspace (blocks (stateOf (createBlockFunc env b e st)))
           = map workspace (blocks st) @ [MenuWorkspace, MainWorkspace]"
    and "mouseDowns (stateOf (createBlockFunc env b e st)) = mouseDowns st @ [(nextId st, e)]"
proof -
  obtain r where r: "svgRoot b = Some r"
    using assms(3) by auto
  show "returned (createBlockFunc env b e st)"
    using assms(1,2,4,5) r
    by (simp add: createBlockFunc_def step_defs Let_def del: map_map)
  show "map workspace (blocks (stateOf (createBlockFunc env b e st)))
          = map workspace (blocks st) @ [MenuWorkspace, MainWorkspace]"
    using assms(1,2,4,5) r
    by (simp add: createBlockFunc_def step_defs Let_def map_workspace_upd del: map_map)
  show "mouseDowns (stateOf (createBlockFunc env b e st)) = mouseDowns st @ [(nextId st, e)]"
    using assms(1,2,4,5) r
    by (simp add: createBlockFunc_def step_defs Let_def del: map_map)
qed

text \<open>
  Claim C2, as stated: during a pending drag a pointer-move creates a block if and only
  if its distance from the pointer-down position exceeds \<^verbatim>\<open>DRAG_RADIUS\<close>. It fails for
  the moves that \<^verbatim>\<open>onMouseMove_\<close> takes for rogue touch events: after a pointer-down at
  (40, 30), a \<^verbatim>\<open>mousemove\<close> at (0, 0) with button 0 is 50 away, beyond the radius 5,
  and the handler returns with the state unchanged.
\<close>

theorem onMouseMove_rogue_counterexample:
  "DRAG_RADIUS env0 <
     sqrt ((clientX (mouseEvent ''mousemove'' 0 0 0) - clientX (mouseEvent ''mousedown'' 40 30 0)) ^ 2
         + (clientY (mouseEvent ''mousemove'' 0 0 0) - clientY (mouseEvent ''mousedown'' 40 30 0)) ^ 2)
   \<and> onMouseMove env0 (mouseEvent ''mousemove'' 0 0 0)
        (blockMouseDown env0 stackBlock (mouseEvent ''mousedown'' 40 30 0) shownStack)
      = Returns (blockMouseDown env0 stackBlock (mouseEvent ''mousedown'' 40 30 0) shownStack)"
  by (simp add: onMouseMove_def rogueMove_def mouseEvent_def env0_def sqrt_exceeds_iff)

text \<open>
  Claim C2, amended. During a pending drag (pointer-down recorded an event that is not a
  right click, the menu, and a block that is live and not disabled), a pointer-move
  with the rogue signature (type \<^verbatim>\<open>mousemove\<close>, \<open>clientX \<le> 1\<close>, \<open>clientY = 0\<close>,
  button 0) changes nothing. Any other pointer-move runs the creation handler on the
  start block with the pointer-down event if its Euclidean distance from the
  pointer-down position strictly exceeds \<^verbatim>\<open>DRAG_RADIUS\<close>, and changes nothing if the
  distance is at or below it. When the start block is rendered and both workspaces
  render their blocks, the handler returns, the main workspace has one block more, and
  the drag has started with the pointer-down event.
\<close>

theorem onMouseMove_threshold:
  assumes "startDownEvent st = Some down" and "startblockMenu st = Some menu"
    and "startBlock st = Some b0" and "getBlock (bid b0) st = Some b"
    and "\<not> isRightButton env down" and "\<not> disabled b"
  shows "if rogueMove e then onMouseMove env e st = Returns st
         else if DRAG_RADIUS env <
                 sqrt ((clientX e - clientX down) ^ 2 + (clientY e - clientY down) ^ 2)
         then onMouseMove env e st = createBlockFunc env b down st
            \<and> (svgRoot b \<noteq> None \<and> rendered env MenuWorkspace \<and> rendered env MainWorkspace \<longrightarrow>
                 returned (onMouseMove env e st)
               \<and> length (getTopBlocks MainWorkspace (stateOf (onMouseMove env e st)))
                   = Suc (length (getTopBlocks MainWorkspace st))
               \<and> mouseDowns (stateOf (onMouseMove env e st))
                   = mouseDowns st @ [(nextId st, down)])
         else onMouseMove env e st = Returns st"
proof -
  have near: "onMouseMove env e st = Returns st" if "rogueMove e"
    using that by (simp add: onMouseMove_def)
  have within: "onMouseMove env e st = Returns st"
    if "\<not> DRAG_RADIUS env <
          sqrt ((clientX e - clientX down) ^ 2 + (clientY e - clientY down) ^ 2)"
    using that assms(1) by (simp add: onMouseMove_def Let_def)
  have far: "onMouseMove env e st = createBlockFunc env b down st"
    if "\<not> rogueMove e"
      and "DRAG_RADIUS env <
             sqrt ((clientX e - clientX down) ^ 2 + (clientY e - clientY down) ^ 2)"
    using that assms(1-4) by (simp add: onMouseMove_def Let_def)
  have made: "returned (createBlockFunc env b down st)
      \<and> length (getTopBlocks MainWorkspace (stateOf (createBlockFunc env b down st)))
          = Suc (length (getTopBlocks MainWorkspace st))
      \<and> mouseDowns (stateOf (createBlockFunc env b down st))
          = mouseDowns st @ [(nextId st, down)]"
    if "svgRoot b \<noteq> None" and "rendered env MenuWorkspace" and "rendered env MainWorkspace"
    using createBlockFunc_main [OF assms(5,6) that, of st]
    by (simp add: length_getTopBlocks)
  show ?thesis
  proof (cases "rogueMove e")
    case True
    then show ?thesis by (simp add: near)
  next
    case False
    show ?thesis
    proof (cases "DRAG_RADIUS env <
        sqrt ((clientX e - clientX down) ^ 2 + (clientY e - clientY down) ^ 2)")
      case True
      have eq: "onMouseMove env e st = createBlockFunc env b down st"
        by (rule far [OF False True])
      show ?thesis
        using False True made by (simp add: eq)
    next
      case nf: False
      then show ?thesis using False by (simp add: within)
    qed
  qed
qed

text \<open>
  After the pointer-down at (40, 30) on the one block of the menu: a move to (44, 33) is
  5 away and changes nothing; a move to (44, 34) is farther, and the main workspace,
  empty before, has a block; a move to (1, 0) has the rogue signature and changes
  nothing.
\<close>

theorem onMouseMove_threshold_witness:
  "onMouseMove env0 (mouseEvent ''mousemove'' 44 33 0)
       (blockMouseDown env0 stackBlock (mouseEvent ''mousedown'' 40 30 0) shownStack)
     = Returns (blockMouseDown env0 stackBlock (mouseEvent ''mousedown'' 40 30 0) shownStack)
   \<and> returned (onMouseMove env0 (mouseEvent ''mousemove'' 44 34 0)
       (blockMouseDown env0 stackBlock (mouseEvent ''mousedown'' 40 30 0) shownStack))
   \<and> length (getTopBlocks MainWorkspace
       (blockMouseDown env0 stackBlock (mouseEvent ''mousedown'' 40 30 0) shownStack)) = 0
   \<and> length (getTopBlocks MainWorkspace (stateOf (onMouseMove env0 (mouseEvent ''mousemove'' 44 34 0)
       (blockMouseDown env0 stackBlock (mouseEvent ''mousedown'' 40 30 0) shownStack)))) = 1
   \<and> mouseDowns (stateOf (onMouseMove env0 (mouseEvent ''mousemove'' 44 34 0)
       (blockMouseDown env0 stackBlock (mouseEvent ''mousedown'' 40 30 0) shownStack)))
     = [(9, mouseEvent ''mousedown'' 40 30 0)]
   \<and> onMouseMove env0 (mouseEvent ''mousemove'' 1 0 0)
       (blockMouseDown env0 stackBlock (mouseEvent ''mousedown'' 40 30 0) shownStack)
     = Returns (blockMouseDown env0 stackBlock (mouseEvent ''mousedown'' 40 30 0) shownStack)"
proof -
  let ?down = "mouseEvent ''mousedown'' 40 30 0"
  let ?st = "blockMouseDown env0 stackBlock ?down shownStack"
  let ?far = "mouseEvent ''mousemove'' 44 34 0"
  have h: "startDownEvent ?st = Some ?down" "startblockMenu ?st = Some ThisBlockMenu"
    "startBlock ?st = Some stackBlock" "getBlock (bid stackBlock) ?st = Some stackBlock"
    "\<not> isRightButton env0 ?down" "\<not> disabled stackBlock"
    by (simp_all add: blockMouseDown_def Blockly_terminateDrag_def BlockMenu_terminateDrag_def
        input_defs prim_defs Let_def)
  have b: "length (getTopBlocks MainWorkspace ?st) = 0" "mouseDowns ?st = []" "nextId ?st = 9"
    by (simp_all add: blockMouseDown_def Blockly_terminateDrag_def BlockMenu_terminateDrag_def
        input_defs prim_defs Let_def)
  have v: "svgRoot stackBlock \<noteq> None \<and> rendered env0 MenuWorkspace \<and> rendered env0 MainWorkspace"
    by (simp add: input_defs)
  have r: "\<not> rogueMove (mouseEvent ''mousemove'' 44 33 0)"
    "\<not> rogueMove ?far" "rogueMove (mouseEvent ''mousemove'' 1 0 0)"
    by (simp_all add: rogueMove_def mouseEvent_def)
  have d: "DRAG_RADIUS env0 = 5" "\<And>t x y b. clientX (mouseEvent t x y b) = x"
    "\<And>t x y b. clientY (mouseEvent t x y b) = y"
    by (simp_all add: env0_def mouseEvent_def)
  have n: "\<not> DRAG_RADIUS env0 <
      sqrt ((clientX (mouseEvent ''mousemove'' 44 33 0) - clientX ?down) ^ 2
          + (clientY (mouseEvent ''mousemove'' 44 33 0) - clientY ?down) ^ 2)"
    by (simp add: d sqrt_exceeds_iff)
  have g: "DRAG_RADIUS env0 <
      sqrt ((clientX ?far - clientX ?down) ^ 2 + (clientY ?far - clientY ?down) ^ 2)"
    by (simp add: d sqrt_exceeds_iff)
  have w1: "onMouseMove env0 (mouseEvent ''mousemove'' 44 33 0) ?st = Returns ?st"
    using onMouseMove_threshold [OF h, of "mouseEvent ''mousemove'' 44 33 0"]
    unfolding if_not_P [OF r(1)] if_not_P [OF n] .
  have w2: "returned (onMouseMove env0 ?far ?st)
      \<and> length (getTopBlocks MainWorkspace (stateOf (onMouseMove env0 ?far ?st)))
          = Suc (length (getTopBlocks MainWorkspace ?st))
      \<and> mouseDowns (stateOf (onMouseMove env0 ?far ?st)) = mouseDowns ?st @ [(nextId ?st, ?down)]"
  proof -
    have "onMouseMove env0 ?far ?st = createBlockFunc env0 stackBlock ?down ?st
        \<and> (svgRoot stackBlock \<noteq> None \<and> rendered env0 MenuWorkspace
             \<and> rendered env0 MainWorkspace \<longrightarrow>
           returned (onMouseMove env0 ?far ?st)
         \<and> length (getTopBlocks MainWorkspace (stateOf (onMouseMove env0 ?far ?st)))
             = Suc (length (getTopBlocks MainWorkspace ?st))
         \<and> mouseDowns (stateOf (onMouseMove env0 ?far ?st))
             = mouseDowns ?st @ [(nextId ?st, ?down)])"
      using onMouseMove_threshold [OF h, of ?far]
      unfolding if_not_P [OF r(2)] if_P [OF g] .
    then show ?thesis
      using v by blast
  qed
  have w3: "onMouseMove env0 (mouseEvent ''mousemove'' 1 0 0) ?st = Returns ?st"
    using onMouseMove_threshold [OF h, of "mouseEvent ''mousemove'' 1 0 0"]
    unfolding if_P [OF r(3)] .
  have l2: "length (getTopBlocks MainWorkspace (stateOf (onMouseMove env0 ?far ?st))) = 1"
    unfolding w2 [THEN conjunct2, THEN conjunct1] b(1) by simp
  have m2: "mouseDowns (stateOf (onMouseMove env0 ?far ?st)) = [(9, ?down)]"
    unfolding w2 [THEN conjunct2, THEN conjunct2] b(2,3) by simp
  show ?thesis
    by (intro conjI w1 w2 [THEN conjunct1] b(1) l2 m2 w3)
qed

subsection \<open>The creation handler\<close>

text \<open>
  Claim C6, as stated: when the creation handler runs on a block whose SVG root is absent
  it halts by throwing, and the component has no other error handling. A right click on
  an unrendered block returns without a fault, and \<^verbatim>\<open>getMetrics_\<close> catches the exception
  of \<^verbatim>\<open>getBBox\<close> and goes on with a box of height 0 at y 0.
\<close>

theorem unrendered_right_click_counterexample:
  "svgRoot (stackBlock\<lparr>svgRoot := None\<rparr>) = None
   \<and> createBlockFunc env0 (stackBlock\<lparr>svgRoot := None\<rparr>) (mouseEvent ''mousedown'' 40 30 2)
        shownStack = Returns shownStack
   \<and> getMetrics (env0\<lparr>canvasBBox := None\<rparr>) shownStack
       = Some \<lparr>viewHeight = 600, viewWidth = 250, contentHeight = 0, viewTop = 0,
               contentTop = 0, absoluteTop = 0, absoluteLeft = 0\<rparr>"
  by (simp add: createBlockFunc_def getMetrics_def input_defs)

text \<open>
  Claim C6, amended. When the creation handler runs with an event that is not a right
  click on an origin block that is not disabled, it throws
  \<^verbatim>\<open>'originBlock is not rendered.'\<close> if the origin block has no SVG root, and
  \<^verbatim>\<open>'block is not rendered.'\<close> if the origin has one but a copy does not (the menu
  workspace or the main workspace does not render its blocks); it neither retries nor
  returns a value.
\<close>

theorem createBlockFunc_not_rendered:
  assumes "\<not> isRightButton env e" and "\<not> disabled originBlock"
  shows "(svgRoot originBlock = None \<longrightarrow>
            (\<exists>s. createBlockFunc env originBlock e st
                   = Throws (Thrown ''originBlock is not rendered.'') s))
       \<and> (svgRoot originBlock \<noteq> None
            \<and> \<not> (rendered env MenuWorkspace \<and> rendered env MainWorkspace) \<longrightarrow>
            (\<exists>s. createBlockFunc env originBlock e st
                   = Throws (Thrown ''block is not rendered.'') s))"
  using assms
  by (auto simp: createBlockFunc_def domToBlock_def Let_def split: option.splits)

text \<open>
  On the menu that shows one block: a left click once the block has lost its root, and
  a left click when only the menu workspace renders.
\<close>

theorem createBlockFunc_not_rendered_witness:
  "(\<exists>s. createBlockFunc env0 (stackBlock\<lparr>svgRoot := None\<rparr>) (mouseEvent ''mousedown'' 40 30 0)
          shownStack = Throws (Thrown ''originBlock is not rendered.'') s)
   \<and> (\<exists>s. createBlockFunc (env0\<lparr>rendered := (\<lambda>ws. ws = MenuWorkspace)\<rparr>) stackBlock
          (mouseEvent ''mousedown'' 40 30 0) shownStack
          = Throws (Thrown ''block is not rendered.'') s)"
proof -
  have h: "\<not> isRightButton env0 (mouseEvent ''mousedown'' 40 30 0)"
    "\<not> isRightButton (env0\<lparr>rendered := (\<lambda>ws. ws = MenuWorkspace)\<rparr>) (mouseEvent ''mousedown'' 40 30 0)"
    "\<not> disabled (stackBlock\<lparr>svgRoot := None\<rparr>)" "\<not> disabled stackBlock"
    by (simp_all add: input_defs disabled_def)
  have r: "svgRoot (stackBlock\<lparr>svgRoot := None\<rparr>) = None" "svgRoot stackBlock \<noteq> None"
    "\<not> (rendered (env0\<lparr>rendered := (\<lambda>ws. ws = MenuWorkspace)\<rparr>) MenuWorkspace
        \<and> rendered (env0\<lparr>rendered := (\<lambda>ws. ws = MenuWorkspace)\<rparr>) MainWorkspace)"
    by (simp_all add: input_defs)
  show ?thesis
    using createBlockFunc_not_rendered [OF h(1) h(3), of shownStack]
      createBlockFunc_not_rendered [OF h(2) h(4), of shownStack] r
    by blast
qed

text \<open>
  Claim C7, as stated: a left click on an enabled, rendered menu block puts a copy on the
  main workspace and starts a drag on that copy. On the menu that shows one block
  (block 1, at (10, 17)) the handler creates block 7 in the menu's own workspace, on top
  of block 1, and block 9 in the main workspace; \<^verbatim>\<open>onMouseDown_\<close> goes to block 7,
  not to the copy on the main workspace.
\<close>

theorem createBlockFunc_drags_menu_clone:
  "returned (createBlockFunc env0 stackBlock (mouseEvent ''mousedown'' 40 30 0) shownStack)
   \<and> map (\<lambda>b. (bid b, workspace b, posX b, posY b))
        (blocks (stateOf (createBlockFunc env0 stackBlock (mouseEvent ''mousedown'' 40 30 0)
           shownStack)))
       = [(1, MenuWorkspace, Num 10, Num 17), (7, MenuWorkspace, Num 10, Num 17),
          (9, MainWorkspace, Num (- 192), Num 50)]
   \<and> mouseDowns (stateOf (createBlockFunc env0 stackBlock (mouseEvent ''mousedown'' 40 30 0)
        shownStack))
       = [(7, mouseEvent ''mousedown'' 40 30 0)]"
  by (simp add: createBlockFunc_def input_defs prim_defs Let_def)

lemma map_upd_other:
  "\<forall>c\<in>set xs. bid c \<noteq> i \<Longrightarrow> map (\<lambda>b. if bid b = i then f b else b) xs = xs"
  by (induction xs) auto

lemma canvasOrigin_upd:
  "canvasOrigin env (st\<lparr>blocks := bs\<rparr>) ws = canvasOrigin env st ws"
  "canvasOrigin env (st\<lparr>nextId := n\<rparr>) ws = canvasOrigin env st ws"
  "canvasOrigin env (st\<lparr>entryEvents := es\<rparr>) ws = canvasOrigin env st ws"
  "canvasOrigin env (st\<lparr>mouseDowns := ms\<rparr>) ws = canvasOrigin env st ws"
  by (simp_all add: canvasOrigin_def split: wsname.split)

lemma canvasOrigin_menu_x: "fst (canvasOrigin env st MenuWorkspace) = 0"
  by (simp add: canvasOrigin_def)

lemma canvasOrigin_main: "canvasOrigin env st MainWorkspace = mainOrigin env"
  by (simp add: canvasOrigin_def)

lemma nadd_nsub_cancel [simp]:
  "nadd (nsub p (Num t)) (Num t) = p"
  "nadd (nsub (nsub p (Num t)) (Num c)) (Num t) = nsub p (Num c)"
  "nadd (nadd (nsub p (Num t)) (Num c)) (Num t) = nadd p (Num c)"
  by (cases p; simp)+

text \<open>
  Claim C7, amended. With an event that is not a right click, an origin block that is
  enabled and rendered, and both workspaces rendering (block identities in the state
  being older than the next one), the handler returns after adding exactly two copies of
  the origin's XML: one in the menu's workspace, placed at the origin block's SVG
  position, and one in the main workspace, placed at that position moved by (-202, +33).
  The main-workspace copy is the stalker of the menu copy, its \<open>startDragX\<close> and
  \<open>startDragY\<close> are the shift that took it there from the origin of its workspace,
  and the drag (\<^verbatim>\<open>onMouseDown_\<close> with the event) starts on the menu copy.
\<close>

theorem createBlockFunc_copies:
  assumes "\<not> isRightButton env e" and "\<not> disabled originBlock"
    and "svgRoot originBlock \<noteq> None"
    and "rendered env MenuWorkspace" and "rendered env MainWorkspace"
    and "\<forall>c\<in>set (blocks st). bid c < nextId st"
  shows "returned (createBlockFunc env originBlock e st)
       \<and> (let st' = stateOf (createBlockFunc env originBlock e st);
               n = length (blocks st);
               menuCopy = blocks st' ! n;
               mainCopy = blocks st' ! Suc n;
               xyOld = getSvgXY env st originBlock;
               shiftX = nsub (nsub (fst xyOld) (Num (fst (mainOrigin env)))) (Num 202);
               shiftY = nadd (nsub (snd xyOld) (Num (snd (mainOrigin env)))) (Num 33)
           in length (blocks st') = n + 2 \<and> take n (blocks st') = blocks st
              \<and> workspace menuCopy = MenuWorkspace \<and> dom menuCopy = blockToDom originBlock
              \<and> getSvgXY env st' menuCopy = xyOld
              \<and> workspace mainCopy = MainWorkspace \<and> dom mainCopy = blockToDom originBlock
              \<and> getSvgXY env st' mainCopy = (nsub (fst xyOld) (Num 202), nadd (snd xyOld) (Num 33))
              \<and> posX mainCopy = shiftX \<and> posY mainCopy = shiftY
              \<and> startDragX mainCopy = Some shiftX \<and> startDragY mainCopy = Some shiftY
              \<and> bid menuCopy \<noteq> bid mainCopy
              \<and> stalkerBlock menuCopy = Some (bid mainCopy)
              \<and> mouseDowns st' = mouseDowns st @ [(bid menuCopy, e)])"
proof -
  have o: "\<forall>c\<in>set (blocks st). bid c \<noteq> nextId st"
    "\<forall>c\<in>set (blocks st). bid c \<noteq> Suc (Suc (nextId st))"
    using assms(6) by auto
  obtain r where r: "svgRoot originBlock = Some r"
    using assms(3) by auto
  show ?thesis
    using assms(1,2,4,5) r o
    by (simp add: createBlockFunc_def step_defs Let_def map_upd_other nth_append
        canvasOrigin_upd canvasOrigin_menu_x canvasOrigin_main del: map_map)
qed

text \<open>The left click at (40, 30) on the one block of the menu, at (10, 17).\<close>

theorem createBlockFunc_copies_witness:
  "(let st' = stateOf (createBlockFunc env0 stackBlock (mouseEvent ''mousedown'' 40 30 0) shownStack)
    in returned (createBlockFunc env0 stackBlock (mouseEvent ''mousedown'' 40 30 0) shownStack)
       \<and> length (blocks st') = 3 \<and> workspace (blocks st' ! 2) = MainWorkspace
       \<and> getSvgXY env0 st' (blocks st' ! 2) = (Num (- 192), Num 50)
       \<and> startDragX (blocks st' ! 2) = Some (Num (- 192))
       \<and> startDragY (blocks st' ! 2) = Some (Num 50)
       \<and> mouseDowns st' = [(bid (blocks st' ! 1), mouseEvent ''mousedown'' 40 30 0)])"
proof -
  have h: "\<not> isRightButton env0 (mouseEvent ''mousedown'' 40 30 0)" "\<not> disabled stackBlock"
    "svgRoot stackBlock \<noteq> None" "rendered env0 MenuWorkspace" "rendered env0 MainWorkspace"
    "\<forall>c\<in>set (blocks shownStack). bid c < nextId shownStack"
    by (simp_all add: input_defs disabled_def)
  have x: "getSvgXY env0 shownStack stackBlock = (Num 10, Num 17)"
    "length (blocks shownStack) = 1" "mouseDowns shownStack = []" "mainOrigin env0 = (0, 0)"
    by (simp_all add: input_defs prim_defs)
  show ?thesis
    using createBlockFunc_copies [OF h] x
    by (simp add: Let_def eval_nat_numeral)
qed

subsection \<open>reflow\<close>

text \<open>
  Claim C5. \<^verbatim>\<open>reflow\<close> should compute the width of the menu as the width of its
  widest block plus the margins \<open>CORNER_RADIUS + TAB_WIDTH + CORNER_RADIUS / 2 +
  scrollbarThickness\<close>, and put the rectangle of each block on the block's box, mirrored
  in right-to-left mode. \<^verbatim>\<open>reflow\<close> reads the margin from \<^verbatim>\<open>this.CORNER_RADIUS\<close>,
  a property that the menu does not have. On a new menu, \<^verbatim>\<open>show\<close> of one block of
  width 120, with a tab width of 8 and a scrollbar thickness of 15: the width that
  \<^verbatim>\<open>reflow\<close> stores is \<^verbatim>\<open>NaN\<close>, and so it is after a second \<^verbatim>\<open>reflow\<close>; in
  right-to-left mode the block is moved to x \<^verbatim>\<open>NaN\<close> and its rectangle gets the x
  \<^verbatim>\<open>NaN\<close>. Since \<^verbatim>\<open>NaN\<close> differs from every stored width, the rectangles are
  repositioned at every call.
\<close>

theorem reflow_width_NaN:
  "CORNER_RADIUS BlockMenu_new = None
   \<and> show_menu env0 (XmlNodes [xStack]) BlockMenu_new = Returns shownStack
   \<and> map (\<lambda>b. hw_width (getHeightWidth b)) (getTopBlocks MenuWorkspace shownStack) = [120]
   \<and> width shownStack = Some NaN
   \<and> width (reflow env0 shownStack) = Some NaN
   \<and> resizeEvents (reflow env0 shownStack) = Suc (resizeEvents shownStack)
   \<and> map posX (getTopBlocks MenuWorkspace
        (stateOf (show_menu (env0\<lparr>RTL := True\<rparr>) (XmlNodes [xStack]) BlockMenu_new))) = [NaN]
   \<and> map attrX (rects
        (stateOf (show_menu (env0\<lparr>RTL := True\<rparr>) (XmlNodes [xStack]) BlockMenu_new))) = [NaN]"
proof -
  have 1: "show_menu env0 (XmlNodes [xStack]) BlockMenu_new = Returns shownStack"
    by (rule show_menu_stack)
  have 2: "CORNER_RADIUS BlockMenu_new = None"
    "map (\<lambda>b. hw_width (getHeightWidth b)) (getTopBlocks MenuWorkspace shownStack) = [120]"
    "width shownStack = Some NaN"
    by (simp_all add: input_defs prim_defs)
  have 3: "width (reflow env0 shownStack) = Some NaN"
    "resizeEvents (reflow env0 shownStack) = Suc (resizeEvents shownStack)"
    by (simp_all add: reflow_def reflowBlock_def computeWidth_def input_defs prim_defs Let_def)
  have 4: "map posX (getTopBlocks MenuWorkspace
        (stateOf (show_menu (env0\<lparr>RTL := True\<rparr>) (XmlNodes [xStack]) BlockMenu_new))) = [NaN]"
    "map attrX (rects
        (stateOf (show_menu (env0\<lparr>RTL := True\<rparr>) (XmlNodes [xStack]) BlockMenu_new))) = [NaN]"
    by (simp_all add: show_defs input_defs prim_defs Let_def)
  show ?thesis
    using 1 2 3 4 by simp
qed

subsection \<open>show\<close>

text \<open>
  Claim C9. \<^verbatim>\<open>show\<close> calls \<^verbatim>\<open>hide\<close> first, so after any \<^verbatim>\<open>show\<close>, from whatever state
  earlier calls left, \<open>buttons\<close> holds exactly the hit-region of each block of the menu's
  workspace, in order, every such block was created by this call, and \<open>listeners\<close>
  holds only bindings made by this call (one per block, and one more per addable
  block): nothing accumulates. Identities come from one counter, so what this call
  created is what is not older than the counter at its start. When the menu's workspace
  renders its blocks, \<^verbatim>\<open>show\<close> does return.
\<close>

theorem show_menu_fresh:
  "(rendered env MenuWorkspace \<longrightarrow> returned (show_menu env xmlList st))
   \<and> (show_menu env xmlList st = Returns st' \<longrightarrow>
        buttons st' = map blockMenuRect (getTopBlocks MenuWorkspace st')
      \<and> (\<forall>b\<in>set (getTopBlocks MenuWorkspace st'). blockMenuRect b \<noteq> None \<and> nextId st \<le> bid b)
      \<and> (\<forall>l\<in>set (listeners st'). nextId st \<le> handle l)
      \<and> length (listeners st')
          = length (filter isAddable (getTopBlocks MenuWorkspace st'))
            + length (getTopBlocks MenuWorkspace st'))"
  using show_menu_returns [of env xmlList st] show_menu_props [of env xmlList st st']
  by blast

text \<open>
  A second \<^verbatim>\<open>show\<close>, of one value block, on the menu that shows one block: the old
  bindings 4 and 5 are gone, the rectangle is 9 and the bindings are 10 and 11.
\<close>

theorem show_menu_fresh_witness:
  "returned (show_menu env0 (XmlNodes [xValue]) shownStack)
   \<and> buttons (stateOf (show_menu env0 (XmlNodes [xValue]) shownStack)) = [Some 9]
   \<and> map handle (listeners (stateOf (show_menu env0 (XmlNodes [xValue]) shownStack))) = [10, 11]
   \<and> map handle (listeners shownStack) = [4, 5]"
proof -
  let ?out = "show_menu env0 (XmlNodes [xValue]) shownStack"
  have e: "rendered env0 MenuWorkspace"
    by (simp add: env0_def)
  have r: "returned ?out"
    using show_menu_fresh [of env0 "XmlNodes [xValue]" shownStack] e by blast
  have v: "map blockMenuRect (getTopBlocks MenuWorkspace (stateOf ?out)) = [Some 9]"
    "map handle (listeners (stateOf ?out)) = [10, 11]"
    "map handle (listeners shownStack) = [4, 5]"
    by (simp_all add: show_defs input_defs prim_defs Let_def)
  have "buttons (stateOf ?out) = map blockMenuRect (getTopBlocks MenuWorkspace (stateOf ?out))"
    using show_menu_fresh [of env0 "XmlNodes [xValue]" shownStack "stateOf ?out"]
      returned_stateOf [OF r] by blast
  then show ?thesis
    using r v by simp
qed

text \<open>
  Claim C4, as stated: each block with an output connection is shifted right by half its
  height, each block lacking a previous connection gets 10 units of leading gap, and
  after a block the cursor advances by the block's height plus its gap, with 10 more
  only for a block that got the leading gap of 10 and lacks a next connection.
  \<^verbatim>\<open>show\<close> of a value block of height 20 (an output connection, no previous and no
  next connection) followed by a statement block: the value block is placed at the
  initial cursor, y 10, with no leading gap, and the statement block at y 47, which is
  10 + 20 + 7 and 10 more, the trailing gap of the value block. And in right-to-left
  mode the \<^verbatim>\<open>reflow\<close> that ends \<^verbatim>\<open>show\<close> moves the blocks: the value block, shown
  alone, is not left at x 20.
\<close>

theorem show_menu_output_counterexample:
  "returned (show_menu env0 (XmlNodes [xValue, xStack]) BlockMenu_new)
   \<and> map (\<lambda>b. (outputConnection b, previousConnection b, nextConnection b,
                 hw_height (getHeightWidth b)))
        (getTopBlocks MenuWorkspace
           (stateOf (show_menu env0 (XmlNodes [xValue, xStack]) BlockMenu_new)))
       = [(True, False, False, 20), (False, True, True, 30)]
   \<and> map posY (getTopBlocks MenuWorkspace
           (stateOf (show_menu env0 (XmlNodes [xValue, xStack]) BlockMenu_new)))
       = [Num 10, Num 47]
   \<and> map (\<lambda>b. (outputConnection b, hw_height (getHeightWidth b), posX b))
        (getTopBlocks MenuWorkspace
           (stateOf (show_menu (env0\<lparr>RTL := True\<rparr>) (XmlNodes [xValue]) BlockMenu_new)))
       = [(True, 20, NaN)]"
proof -
  let ?out = "show_menu env0 (XmlNodes [xValue, xStack]) BlockMenu_new"
  have r: "returned ?out"
    by (rule show_menu_returns) (simp add: env0_def)
  note s = show_menu_layout [OF returned_stateOf [OF r]]
  have T: "templatesOf env0 (XmlNodes [xValue, xStack]) = [(xValue, 0), (xStack, 0)]"
    by (simp add: templatesOf_def isBlockNode_def toUpperCase_def upperChar_def xValue_def
        xStack_def)
  have d: "map dom (menuBlocks (stateOf ?out)) = [xValue, xStack]"
    using s(1) by (simp add: T)
  have "map (\<lambda>b. (outputConnection b, previousConnection b, nextConnection b,
                   hw_height (getHeightWidth b))) (menuBlocks (stateOf ?out))
      = map (\<lambda>x. (hasOutput x, hasPrevious x, hasNext x, boxHeight x))
          (map dom (menuBlocks (stateOf ?out)))"
    by (simp add: outputConnection_def previousConnection_def nextConnection_def
        getHeightWidth_def o_def)
  also have "\<dots> = map (\<lambda>x. (hasOutput x, hasPrevious x, hasNext x, boxHeight x))
                     [xValue, xStack]"
    by (simp only: d)
  also have "\<dots> = [(True, False, False, 20), (False, True, True, 30)]"
    by (simp add: xValue_def xStack_def)
  finally have 1: "map (\<lambda>b. (outputConnection b, previousConnection b, nextConnection b,
                   hw_height (getHeightWidth b))) (menuBlocks (stateOf ?out))
      = [(True, False, False, 20), (False, True, True, 30)]" .
  have c: "cursors 10 [(xValue, 0), (xStack, 0)] = [10, 47]"
    by (simp add: leadingGap_def trailingGap_def xValue_def xStack_def)
  have 2: "map posY (menuBlocks (stateOf ?out)) = [Num 10, Num 47]"
    using s(2) by (simp only: T c) simp
  have 3: "map (\<lambda>b. (outputConnection b, hw_height (getHeightWidth b), posX b))
        (getTopBlocks MenuWorkspace
           (stateOf (show_menu (env0\<lparr>RTL := True\<rparr>) (XmlNodes [xValue]) BlockMenu_new)))
       = [(True, 20, NaN)]"
    by (simp add: show_defs input_defs prim_defs Let_def)
  show ?thesis using r 1 2 3 by simp
qed

text \<open>
  Claim C4, amended. \<^verbatim>\<open>show\<close> lays the blocks out top to bottom from an initial cursor
  of 10. A block with an output connection gets no leading gap; a block without one gets
  a leading gap of 10 if it lacks a previous connection and 7 otherwise. After a block
  the cursor advances by a trailing gap of 10 if the block lacks both a previous and a
  next connection (with or without an output), by the block's height and by its gap. So
  when \<^verbatim>\<open>show\<close> returns, the first block is at y 10 plus its leading gap, each
  further block is at the y of the block before it plus that block's trailing gap,
  height and gap plus its own leading gap, and the y positions are strictly increasing
  when every height plus gap is positive. In left-to-right mode a block with an output
  connection is at x 10 plus half its height and every other block at x 10. When the
  menu's workspace renders its blocks, \<^verbatim>\<open>show\<close> does return.
\<close>

theorem show_menu_positions:
  "(rendered env MenuWorkspace \<longrightarrow> returned (show_menu env xmlList st))
   \<and> (show_menu env xmlList st = Returns st' \<longrightarrow>
        (let B = getTopBlocks MenuWorkspace st'; T = templatesOf env xmlList
         in map dom B = map fst T
          \<and> (\<not> RTL env \<longrightarrow>
               (\<forall>k<length B. posX (B ! k) =
                  Num (if outputConnection (B ! k)
                       then 10 + hw_height (getHeightWidth (B ! k)) / 2 else 10)))
          \<and> (\<exists>Y. map posY B = map Num Y
               \<and> (B \<noteq> [] \<longrightarrow> Y ! 0 = 10 + leadingGap (dom (B ! 0)))
               \<and> (\<forall>k. Suc k < length B \<longrightarrow>
                      Y ! Suc k =
                        Y ! k + trailingGap (dom (B ! k)) + hw_height (getHeightWidth (B ! k))
                          + snd (T ! k) + leadingGap (dom (B ! Suc k)))
               \<and> ((\<forall>k<length B. 0 < hw_height (getHeightWidth (B ! k)) + snd (T ! k)) \<longrightarrow>
                      sorted_wrt (<) Y))))"
  using show_menu_returns [of env xmlList st] show_menu_positions_props [of env xmlList st st']
  by blast

text \<open>
  A value block of height 20 followed by a statement block, left to right: the first at
  (20, 10), the second at (10, 47), that is 10 + 10 + 20 + 0 + 7.
\<close>

theorem show_menu_positions_witness:
  "returned (show_menu env0 (XmlNodes [xValue, xStack]) BlockMenu_new)
   \<and> posX (getTopBlocks MenuWorkspace
          (stateOf (show_menu env0 (XmlNodes [xValue, xStack]) BlockMenu_new)) ! 0) = Num 20
   \<and> posX (getTopBlocks MenuWorkspace
          (stateOf (show_menu env0 (XmlNodes [xValue, xStack]) BlockMenu_new)) ! 1) = Num 10
   \<and> (\<exists>Y. map posY (getTopBlocks MenuWorkspace
                (stateOf (show_menu env0 (XmlNodes [xValue, xStack]) BlockMenu_new))) = map Num Y
          \<and> Y ! 0 = 10 \<and> Y ! 1 = 47 \<and> sorted_wrt (<) Y)"
proof -
  let ?out = "show_menu env0 (XmlNodes [xValue, xStack]) BlockMenu_new"
  let ?B = "getTopBlocks MenuWorkspace (stateOf ?out)"
  let ?T = "templatesOf env0 (XmlNodes [xValue, xStack])"
  note pos = show_menu_positions [of env0 "XmlNodes [xValue, xStack]" BlockMenu_new "stateOf ?out"]
  have e: "rendered env0 MenuWorkspace" "\<not> RTL env0"
    by (simp_all add: env0_def)
  have r: "returned ?out"
    using pos e(1) by blast
  have T: "?T = [(xValue, 0), (xStack, 0)]"
    by (simp add: templatesOf_def isBlockNode_def toUpperCase_def upperChar_def xValue_def
        xStack_def)
  have P: "map dom ?B = map fst ?T"
    "\<forall>k<length ?B. posX (?B ! k) =
        Num (if outputConnection (?B ! k) then 10 + hw_height (getHeightWidth (?B ! k)) / 2
             else 10)"
    "\<exists>Y. map posY ?B = map Num Y
       \<and> (?B \<noteq> [] \<longrightarrow> Y ! 0 = 10 + leadingGap (dom (?B ! 0)))
       \<and> (\<forall>k. Suc k < length ?B \<longrightarrow>
              Y ! Suc k =
                Y ! k + trailingGap (dom (?B ! k)) + hw_height (getHeightWidth (?B ! k))
                  + snd (?T ! k) + leadingGap (dom (?B ! Suc k)))
       \<and> ((\<forall>k<length ?B. 0 < hw_height (getHeightWidth (?B ! k)) + snd (?T ! k)) \<longrightarrow>
              sorted_wrt (<) Y)"
    using pos returned_stateOf [OF r] e(2) unfolding Let_def by blast+
  obtain Y where Y: "map posY ?B = map Num Y"
    "?B \<noteq> [] \<longrightarrow> Y ! 0 = 10 + leadingGap (dom (?B ! 0))"
    "\<forall>k. Suc k < length ?B \<longrightarrow>
        Y ! Suc k =
          Y ! k + trailingGap (dom (?B ! k)) + hw_height (getHeightWidth (?B ! k))
            + snd (?T ! k) + leadingGap (dom (?B ! Suc k))"
    "(\<forall>k<length ?B. 0 < hw_height (getHeightWidth (?B ! k)) + snd (?T ! k)) \<longrightarrow>
        sorted_wrt (<) Y"
    using P(3) by blast
  have d: "map dom ?B = [xValue, xStack]"
    using P(1) by (simp add: T)
  have l: "length ?B = 2"
    using arg_cong [OF d, of length] by simp
  have d0: "dom (?B ! 0) = xValue" and d1: "dom (?B ! Suc 0) = xStack"
    using arg_cong [OF d, of "\<lambda>xs. xs ! 0"] arg_cong [OF d, of "\<lambda>xs. xs ! Suc 0"] l
    by simp_all
  have g: "leadingGap xValue = 0" "trailingGap xValue = 10" "leadingGap xStack = 7"
    "boxHeight xValue = 20" "boxHeight xStack = 30" "hasOutput xValue" "\<not> hasOutput xStack"
    by (simp_all add: leadingGap_def trailingGap_def xValue_def xStack_def)
  have x0: "posX (?B ! 0) = Num 20"
    using P(2) [rule_format, of 0] l
    by (simp add: outputConnection_def getHeightWidth_def d0 g)
  have x1: "posX (?B ! Suc 0) = Num 10"
    using P(2) [rule_format, of "Suc 0"] l
    by (simp add: outputConnection_def getHeightWidth_def d1 g)
  have ne: "?B \<noteq> []"
    using l by auto
  have y0: "Y ! 0 = 10"
    using Y(2) ne by (simp add: d0 g)
  have y1: "Y ! Suc 0 = 47"
    using Y(3) [rule_format, of 0] l y0 by (simp add: d0 d1 g T getHeightWidth_def)
  have "0 < hw_height (getHeightWidth (?B ! k)) + snd (?T ! k)" if "k < length ?B" for k
  proof -
    have "k = 0 \<or> k = Suc 0" using that l by auto
    then show ?thesis
      by (auto simp: T getHeightWidth_def d0 d1 g)
  qed
  then have s: "sorted_wrt (<) Y"
    using Y(4) by blast
  have "\<exists>Y. map posY ?B = map Num Y \<and> Y ! 0 = 10 \<and> Y ! 1 = 47 \<and> sorted_wrt (<) Y"
    using Y(1) y0 y1 s by auto
  then show ?thesis
    using r x0 x1 by simp
qed

end
